theory Spec2Isabelle
  imports Main "HOL-Library.Word"
begin

section \<open>The inhibitor process of caffeine8 (caffeine8.cpp, version 1.1.0)\<close>

text \<open>
  The background process holds three inhibition leases: a screen-saver cookie obtained
  from org.freedesktop.ScreenSaver on the session bus, and two file descriptors (idle,
  sleep) obtained from org.freedesktop.login1 on the system bus. Its globals become one
  record that every function takes and returns. Everything outside the process (libdbus,
  the file system) answers through a \<open>world\<close>: the answer to an outside call
  is a function of the call and of how many outside calls came before it (the counter
  \<open>clock\<close> kept in the state), so a run is a function of the world,
  the signals delivered and the starting state.
\<close>

subsection \<open>Data\<close>

text \<open>A non-null \<open>DBusConnection *\<close>; \<open>nullptr\<close> is \<open>None\<close>.\<close>

type_synonym connection = nat

record InhibitorHandles =
  sessionConnection :: "connection option"
  systemConnection :: "connection option"
  screenSaverCookie :: "32 word"
  idleFd :: int
  sleepFd :: int

datatype bus = DBUS_BUS_SESSION | DBUS_BUS_SYSTEM

datatype dbus_arg = STRING string | UINT32 "32 word" | UNIX_FD int | OTHER_TYPE

datatype method_call = ScreenSaver_Inhibit | ScreenSaver_UnInhibit | Login1_Inhibit

text \<open>What \<open>dbus_bus_get\<close> and \<open>dbus_connection_send_with_reply_and_block\<close> hand back.\<close>

datatype bus_result = BusError string | BusNull | BusConnection connection

datatype send_result = SendError string | SendNull | SendReply "dbus_arg list"

text \<open>The calls that leave the process, in the order made (the trace of a run).\<close>

datatype effect =
    Bus_get bus
  | New_method_call method_call
  | Send_and_block connection method_call "dbus_arg list"
  | Connection_unref connection
  | Close int

text \<open>
  Which function returned what: an instrumentation of the model (no variable of the
  program), written by the three acquire functions on return and by \<open>cleanupInhibitors\<close>.
\<close>

datatype event = Acquire_screen bool | Acquire_login1 string bool | Cleanup

record world =
  getpid :: int
  dbus_bus_get :: "nat \<Rightarrow> bus \<Rightarrow> bus_result"
  dbus_message_new_method_call :: "nat \<Rightarrow> method_call \<Rightarrow> bool"
  dbus_send_with_reply :: "nat \<Rightarrow> method_call \<Rightarrow> dbus_arg list \<Rightarrow> send_result"
  dbus_get_args_error :: "dbus_arg list \<Rightarrow> string"
  ofstream_is_open :: "nat \<Rightarrow> bool"
  ofstream_fail :: "nat \<Rightarrow> nat option"

record state =
  inhibitorHandles :: InhibitorHandles
  debugLoggingEnabled :: bool
  inhibitorsActive :: bool
  terminationRequested :: bool
  acquireRequested :: bool
  releaseRequested :: bool
  lastQbusError :: string
  statusFile :: "string option"
  stdout :: "string list"
  effects :: "effect list"
  history :: "event list"
  clock :: nat

datatype signal = SIGTERM | SIGINT | SIGUSR1 | SIGUSR2 | SIGOTHER

datatype fd_ref = Ref_idleFd | Ref_sleepFd

fun get_fd :: "fd_ref \<Rightarrow> InhibitorHandles \<Rightarrow> int" where
  "get_fd Ref_idleFd h = idleFd h"
| "get_fd Ref_sleepFd h = sleepFd h"

fun set_fd :: "fd_ref \<Rightarrow> int \<Rightarrow> InhibitorHandles \<Rightarrow> InhibitorHandles" where
  "set_fd Ref_idleFd v h = h\<lparr>idleFd := v\<rparr>"
| "set_fd Ref_sleepFd v h = h\<lparr>sleepFd := v\<rparr>"

definition APP_NAME :: string where
  "APP_NAME = ''caffeine8''"

definition statusFilePath :: string where
  "statusFilePath = ''/tmp/caffeine8.status''"

subsection \<open>Text\<close>

text \<open>\<open>std::to_string\<close> and \<open>operator<<\<close> on an integer: decimal, a minus sign when negative.\<close>

definition digit_char :: "nat \<Rightarrow> char" where
  "digit_char d = ''0123456789'' ! d"

fun digits :: "nat \<Rightarrow> string" where
  "digits n = (if n < 10 then [digit_char n] else digits (n div 10) @ [digit_char (n mod 10)])"

declare digits.simps [simp del]

definition to_string :: "int \<Rightarrow> string" where
  "to_string i = (if i < 0 then CHR ''-'' # digits (nat (- i)) else digits (nat i))"

definition std_replace :: "'a \<Rightarrow> 'a \<Rightarrow> 'a list \<Rightarrow> 'a list" where
  "std_replace old new xs = map (\<lambda>c. if c = old then new else c) xs"

definition sanitizeStatusMessage :: "string \<Rightarrow> string" where
  "sanitizeStatusMessage message =
     std_replace (CHR 0x0D) CHR '' '' (std_replace (CHR 0x0A) CHR '' '' message)"

subsection \<open>Logging and the status file\<close>

definition logDebug :: "string \<Rightarrow> state \<Rightarrow> state" where
  "logDebug message s =
     (if debugLoggingEnabled s then s\<lparr>stdout := stdout s @ [''[debug] '' @ message]\<rparr> else s)"

text \<open>The four stream insertions of \<open>updateStatusFile\<close>, one line each.\<close>

definition statusLines :: "int \<Rightarrow> bool \<Rightarrow> bool \<Rightarrow> string \<Rightarrow> string list" where
  "statusLines p active debug message =
     [''pid='' @ to_string p,
      ''active='' @ to_string (if active then 1 else 0),
      ''debug='' @ to_string (if debug then 1 else 0),
      ''message='' @ sanitizeStatusMessage message]"

definition statusText :: "world \<Rightarrow> state \<Rightarrow> string" where
  "statusText w s =
     concat (map (\<lambda>l. l @ [CHR 0x0A])
       (statusLines (getpid w) (inhibitorsActive s) (debugLoggingEnabled s) (lastQbusError s)))"

text \<open>
  The file is opened with \<open>std::ios::trunc\<close>: when it does not open, the file is left
  as it was; when it opens, what was there is gone and the four insertions follow. Nothing
  tests the stream after them, so when the stream goes bad on the way (the file system is
  full, say) only the characters inserted before that are in the file, none at all when
  the first write fails. \<open>ofstream_fail\<close> tells after how many characters that
  happens, \<open>None\<close> when every insertion succeeds.
\<close>

definition inserted :: "nat option \<Rightarrow> string \<Rightarrow> string" where
  "inserted failure content = (case failure of None \<Rightarrow> content | Some k \<Rightarrow> take k content)"

definition updateStatusFile :: "world \<Rightarrow> state \<Rightarrow> state" where
  "updateStatusFile w s =
     (let opened = ofstream_is_open w (clock s);
          failure = ofstream_fail w (clock s);
          s1 = s\<lparr>clock := Suc (clock s)\<rparr>
      in if \<not> opened
         then logDebug (''Unable to open status file for writing: '' @ statusFilePath) s1
         else s1\<lparr>statusFile := Some (inserted failure (statusText w s1))\<rparr>)"

definition setStatusMessage :: "world \<Rightarrow> string \<Rightarrow> state \<Rightarrow> state" where
  "setStatusMessage w message s =
     updateStatusFile w (logDebug message (s\<lparr>lastQbusError := message\<rparr>))"

subsection \<open>Signals\<close>

fun handleSignal :: "signal \<Rightarrow> state \<Rightarrow> state" where
  "handleSignal SIGTERM s = s\<lparr>terminationRequested := True\<rparr>"
| "handleSignal SIGINT s = s\<lparr>terminationRequested := True\<rparr>"
| "handleSignal SIGUSR1 s = s\<lparr>acquireRequested := True\<rparr>"
| "handleSignal SIGUSR2 s = s\<lparr>releaseRequested := True\<rparr>"
| "handleSignal SIGOTHER s = s"

definition deliver :: "signal list \<Rightarrow> state \<Rightarrow> state" where
  "deliver sigs s = fold handleSignal sigs s"

subsection \<open>Acquiring\<close>

definition outside_call :: "effect \<Rightarrow> state \<Rightarrow> state" where
  "outside_call e s = s\<lparr>effects := effects s @ [e], clock := Suc (clock s)\<rparr>"

definition getConnection :: "world \<Rightarrow> bus \<Rightarrow> string \<Rightarrow> state \<Rightarrow> connection option \<times> state" where
  "getConnection w type label s =
     (let s1 = outside_call (Bus_get type) s
      in case dbus_bus_get w (clock s) type of
           BusError m \<Rightarrow>
             (None, setStatusMessage w (''Failed to connect to '' @ label @ '' bus: '' @ m) s1)
         | BusNull \<Rightarrow>
             (None, setStatusMessage w
                      (''Failed to obtain '' @ label @ '' DBus connection (nullptr).'') s1)
         | BusConnection c \<Rightarrow> (Some c, s1))"

definition acquireScreenSaverInhibitor_body :: "world \<Rightarrow> state \<Rightarrow> bool \<times> state" where
  "acquireScreenSaverInhibitor_body w s =
     (let (conn, s1) =
            (case sessionConnection (inhibitorHandles s) of
               None \<Rightarrow>
                 (let (c, t) = getConnection w DBUS_BUS_SESSION ''session'' s
                  in (c, t\<lparr>inhibitorHandles := (inhibitorHandles t)\<lparr>sessionConnection := c\<rparr>\<rparr>))
             | Some c \<Rightarrow> (Some c, s))
      in case conn of
           None \<Rightarrow> (False, s1)
         | Some c \<Rightarrow>
             (let message = dbus_message_new_method_call w (clock s1) ScreenSaver_Inhibit;
                  s2 = outside_call (New_method_call ScreenSaver_Inhibit) s1
              in if \<not> message
                 then (False,
                   setStatusMessage w ''Failed to create DBus message for ScreenSaver.Inhibit.'' s2)
                 else
                   (let reason = ''caffeine8 prevents automatic locking'';
                        sent = [STRING APP_NAME, STRING reason];
                        reply = dbus_send_with_reply w (clock s2) ScreenSaver_Inhibit sent;
                        s3 = outside_call (Send_and_block c ScreenSaver_Inhibit sent) s2
                    in case reply of
                         SendError m \<Rightarrow>
                           (False, setStatusMessage w (''ScreenSaver.Inhibit failed: '' @ m) s3)
                       | SendNull \<Rightarrow>
                           (False, setStatusMessage w ''ScreenSaver.Inhibit returned null reply.'' s3)
                       | SendReply args \<Rightarrow>
                           (case args of
                              UINT32 cookie # _ \<Rightarrow>
                                (True,
                                 logDebug
                                   (''Screen saver inhibitor acquired. Cookie='' @ to_string (uint cookie))
                                   (s3\<lparr>inhibitorHandles :=
                                         (inhibitorHandles s3)\<lparr>screenSaverCookie := cookie\<rparr>\<rparr>))
                            | _ \<Rightarrow>
                                (False,
                                 setStatusMessage w
                                   (''Unable to parse ScreenSaver.Inhibit reply: ''
                                      @ dbus_get_args_error w args) s3)))))"

definition acquireScreenSaverInhibitor :: "world \<Rightarrow> state \<Rightarrow> bool \<times> state" where
  "acquireScreenSaverInhibitor w s =
     (let (ok, s1) = acquireScreenSaverInhibitor_body w s
      in (ok, s1\<lparr>history := history s1 @ [Acquire_screen ok]\<rparr>))"

definition acquireLogin1Inhibitor_body ::
  "world \<Rightarrow> string \<Rightarrow> fd_ref \<Rightarrow> state \<Rightarrow> bool \<times> state" where
  "acquireLogin1Inhibitor_body w what fdOut s =
     (let (conn, s1) =
            (case systemConnection (inhibitorHandles s) of
               None \<Rightarrow>
                 (let (c, t) = getConnection w DBUS_BUS_SYSTEM ''system'' s
                  in (c, t\<lparr>inhibitorHandles := (inhibitorHandles t)\<lparr>systemConnection := c\<rparr>\<rparr>))
             | Some c \<Rightarrow> (Some c, s))
      in case conn of
           None \<Rightarrow> (False, s1)
         | Some c \<Rightarrow>
             (let message = dbus_message_new_method_call w (clock s1) Login1_Inhibit;
                  s2 = outside_call (New_method_call Login1_Inhibit) s1
              in if \<not> message
                 then (False,
                   setStatusMessage w
                     (''Failed to create DBus message for login1.Inhibit '' @ what @ ''.'') s2)
                 else
                   (let why = ''caffeine8 is preventing automatic sleep'';
                        mode = ''block'';
                        sent = [STRING what, STRING APP_NAME, STRING why, STRING mode];
                        reply = dbus_send_with_reply w (clock s2) Login1_Inhibit sent;
                        s3 = outside_call (Send_and_block c Login1_Inhibit sent) s2
                    in case reply of
                         SendError m \<Rightarrow>
                           (False,
                            setStatusMessage w (''login1.Inhibit('' @ what @ '') failed: '' @ m) s3)
                       | SendNull \<Rightarrow>
                           (False,
                            setStatusMessage w
                              (''login1.Inhibit('' @ what @ '') returned null reply.'') s3)
                       | SendReply args \<Rightarrow>
                           (case args of
                              [] \<Rightarrow>
                                (False,
                                 setStatusMessage w
                                   (''login1.Inhibit('' @ what @ '') reply has no arguments.'') s3)
                            | UNIX_FD fd # _ \<Rightarrow>
                                (True,
                                 logDebug
                                   (''systemd inhibitor for '' @ what @ '' acquired. FD='' @ to_string fd)
                                   (s3\<lparr>inhibitorHandles := set_fd fdOut fd (inhibitorHandles s3)\<rparr>))
                            | _ \<Rightarrow>
                                (False,
                                 setStatusMessage w
                                   (''login1.Inhibit('' @ what @ '') reply is not a UNIX FD.'') s3)))))"

definition acquireLogin1Inhibitor ::
  "world \<Rightarrow> string \<Rightarrow> fd_ref \<Rightarrow> state \<Rightarrow> bool \<times> state" where
  "acquireLogin1Inhibitor w what fdOut s =
     (let (ok, s1) = acquireLogin1Inhibitor_body w what fdOut s
      in (ok, s1\<lparr>history := history s1 @ [Acquire_login1 what ok]\<rparr>))"

subsection \<open>Releasing\<close>

definition releaseScreenSaverInhibitor :: "world \<Rightarrow> state \<Rightarrow> state" where
  "releaseScreenSaverInhibitor w s =
     (case sessionConnection (inhibitorHandles s) of
        None \<Rightarrow> s
      | Some c \<Rightarrow>
          if screenSaverCookie (inhibitorHandles s) = 0 then s
          else
            (let message = dbus_message_new_method_call w (clock s) ScreenSaver_UnInhibit;
                 s1 = outside_call (New_method_call ScreenSaver_UnInhibit) s
             in if \<not> message
                then logDebug ''Failed to create DBus message for ScreenSaver.UnInhibit.'' s1
                else
                  (let cookie = screenSaverCookie (inhibitorHandles s1);
                       reply = dbus_send_with_reply w (clock s1) ScreenSaver_UnInhibit [UINT32 cookie];
                       s2 = outside_call (Send_and_block c ScreenSaver_UnInhibit [UINT32 cookie]) s1;
                       s3 = (case reply of
                               SendError m \<Rightarrow> logDebug (''ScreenSaver.UnInhibit failed: '' @ m) s2
                             | _ \<Rightarrow> s2);
                       s4 = s3\<lparr>inhibitorHandles := (inhibitorHandles s3)\<lparr>screenSaverCookie := 0\<rparr>\<rparr>
                   in logDebug ''Screen saver inhibitor released.'' s4)))"

definition releaseLogin1Fd :: "fd_ref \<Rightarrow> string \<Rightarrow> state \<Rightarrow> state" where
  "releaseLogin1Fd fdRef what s =
     (if get_fd fdRef (inhibitorHandles s) \<ge> 0
      then (let s1 = outside_call (Close (get_fd fdRef (inhibitorHandles s))) s;
                s2 = logDebug (''systemd inhibitor for '' @ what @ '' released.'') s1
            in s2\<lparr>inhibitorHandles := set_fd fdRef (- 1) (inhibitorHandles s2)\<rparr>)
      else s)"

definition drop_connection :: "bus \<Rightarrow> state \<Rightarrow> state" where
  "drop_connection b s =
     (let h = inhibitorHandles s
      in case (case b of DBUS_BUS_SESSION \<Rightarrow> sessionConnection h
                       | DBUS_BUS_SYSTEM \<Rightarrow> systemConnection h) of
           None \<Rightarrow> s
         | Some c \<Rightarrow>
             (let s1 = outside_call (Connection_unref c) s
              in s1\<lparr>inhibitorHandles :=
                      (case b of DBUS_BUS_SESSION \<Rightarrow> (inhibitorHandles s1)\<lparr>sessionConnection := None\<rparr>
                               | DBUS_BUS_SYSTEM \<Rightarrow> (inhibitorHandles s1)\<lparr>systemConnection := None\<rparr>)\<rparr>))"

definition cleanupInhibitors :: "world \<Rightarrow> state \<Rightarrow> state" where
  "cleanupInhibitors w s =
     (let s1 = releaseScreenSaverInhibitor w s;
          s2 = releaseLogin1Fd Ref_idleFd ''idle'' s1;
          s3 = releaseLogin1Fd Ref_sleepFd ''sleep'' s2;
          s4 = s3\<lparr>inhibitorsActive := False\<rparr>;
          s5 = drop_connection DBUS_BUS_SESSION s4;
          s6 = drop_connection DBUS_BUS_SYSTEM s5;
          s7 = updateStatusFile w s6
      in s7\<lparr>history := history s7 @ [Cleanup]\<rparr>)"

definition acquireInhibitors :: "world \<Rightarrow> state \<Rightarrow> bool \<times> state" where
  "acquireInhibitors w s =
     (let (screen, s1) = acquireScreenSaverInhibitor w s;
          (idle, s2) = acquireLogin1Inhibitor w ''idle'' Ref_idleFd s1;
          (sleep, s3) = acquireLogin1Inhibitor w ''sleep'' Ref_sleepFd s2;
          s4 = s3\<lparr>inhibitorsActive := screen \<and> idle \<and> sleep\<rparr>
      in if inhibitorsActive s4
         then (True, setStatusMessage w ''Inhibitors active (screen saver, idle, sleep).'' s4)
         else (False, updateStatusFile w s4))"

subsection \<open>The loop\<close>

text \<open>
  Signals only set flags, and the loop reads a flag at three places in a pass: the
  \<open>while\<close> condition, \<open>if (acquireRequested)\<close> and \<open>if (releaseRequested)\<close>. A pass
  of the loop is therefore given three lists of signals, those delivered before each of
  the three reads (a signal arriving during \<open>sleep(1)\<close> or while a request is handled is
  among those before the next read). A run is given finitely many passes; when they are
  used up and no termination was seen, the process is still in the loop.
\<close>

type_synonym pass = "signal list \<times> signal list \<times> signal list"

datatype loop_exit = Still_looping state | Left_loop state

datatype outcome = Running state | Stopped state

fun state_of :: "outcome \<Rightarrow> state" where
  "state_of (Running s) = s"
| "state_of (Stopped s) = s"

text \<open>Lines 717 to 720: the first acquisition, made before the handlers are installed.\<close>

definition beforeLoop :: "world \<Rightarrow> state \<Rightarrow> state" where
  "beforeLoop w s =
     (let (ok, s1) = acquireInhibitors w s
      in if \<not> ok then logDebug ''Initial inhibitor acquisition failed.'' s1 else s1)"

text \<open>Lines 733 to 748: \<open>if (acquireRequested) { ... }\<close>.\<close>

definition onAcquireRequested :: "world \<Rightarrow> state \<Rightarrow> state" where
  "onAcquireRequested w s =
     (if acquireRequested s
      then (let s1 = s\<lparr>acquireRequested := False\<rparr>
            in if \<not> inhibitorsActive s1
               then (let (ok, s2) = acquireInhibitors w s1
                     in if \<not> ok
                        then logDebug ''Acquire request failed; inhibitors remain inactive.'' s2
                        else s2)
               else updateStatusFile w
                      (logDebug ''Acquire request ignored; inhibitors already active.'' s1))
      else s)"

text \<open>Lines 750 to 762: \<open>if (releaseRequested) { ... }\<close>.\<close>

definition onReleaseRequested :: "world \<Rightarrow> state \<Rightarrow> state" where
  "onReleaseRequested w s =
     (if releaseRequested s
      then (let s1 = s\<lparr>releaseRequested := False\<rparr>
            in if inhibitorsActive s1
               then setStatusMessage w ''Inhibitors released by user request.''
                      (cleanupInhibitors w s1)
               else setStatusMessage w ''Inhibitors already inactive.'' s1)
      else s)"

text \<open>Lines 767 to 773: what follows the loop.\<close>

definition onTermination :: "world \<Rightarrow> state \<Rightarrow> state" where
  "onTermination w s =
     (let s1 = logDebug ''Termination requested, cleaning up inhibitors.'' s;
          wereActive = inhibitorsActive s1;
          s2 = cleanupInhibitors w s1
      in if wereActive
         then setStatusMessage w ''Inhibitors released (process exiting).'' s2
         else s2)"

fun whileLoop :: "world \<Rightarrow> pass list \<Rightarrow> state \<Rightarrow> loop_exit" where
  "whileLoop w [] s = Still_looping s"
| "whileLoop w ((before_while, before_acquire, before_release) # passes) s =
     (let s1 = deliver before_while s
      in if terminationRequested s1 then Left_loop s1
         else (let s2 = onAcquireRequested w (deliver before_acquire s1);
                   s3 = onReleaseRequested w (deliver before_release s2)
               in whileLoop w passes s3))"

definition runInhibitorLoop :: "world \<Rightarrow> pass list \<Rightarrow> state \<Rightarrow> outcome" where
  "runInhibitorLoop w passes s =
     (case whileLoop w passes (beforeLoop w s) of
        Still_looping s1 \<Rightarrow> Running s1
      | Left_loop s1 \<Rightarrow> Stopped (onTermination w s1))"

subsection \<open>Process start\<close>

definition setDebugMode :: "bool \<Rightarrow> state \<Rightarrow> state" where
  "setDebugMode enabled s =
     (let s1 = s\<lparr>debugLoggingEnabled := enabled\<rparr>
      in if enabled then logDebug ''Debug logging enabled.'' s1 else s1)"

text \<open>The globals as initialised, before \<open>main\<close> runs; the status file is what it finds.\<close>

definition initial_state :: "string option \<Rightarrow> state" where
  "initial_state file =
     \<lparr>inhibitorHandles =
        \<lparr>sessionConnection = None, systemConnection = None, screenSaverCookie = 0,
         idleFd = - 1, sleepFd = - 1\<rparr>,
      debugLoggingEnabled = False,
      inhibitorsActive = False,
      terminationRequested = False,
      acquireRequested = False,
      releaseRequested = False,
      lastQbusError = ''NONE'',
      statusFile = file,
      stdout = [],
      effects = [],
      history = [],
      clock = 0\<rparr>"

subsection \<open>The reader of the status file\<close>

text \<open>
  The window process reads the file back (the lambda \<open>readStatus\<close> of \<open>showUI\<close>): it
  takes the file line by line with \<open>std::getline\<close>, skips a line without \<open>=\<close>, and
  splits the others at the first \<open>=\<close> into key and value. \<open>readStatus_active\<close> is the
  field \<open>active\<close> of what it returns (false when the file is missing or has no such
  line); the other keys set other fields.
\<close>

function getlines :: "string \<Rightarrow> string list" where
  "getlines text =
     (if text = [] then []
      else takeWhile (\<lambda>c. c \<noteq> CHR 0x0A) text #
           (case dropWhile (\<lambda>c. c \<noteq> CHR 0x0A) text of
              [] \<Rightarrow> []
            | newline # rest \<Rightarrow> getlines rest))"
  by pat_completeness auto
termination
proof (relation "measure length")
  show "wf (measure length)" by simp
next
  fix content :: string and newline rest
  assume "content \<noteq> []" and d: "dropWhile (\<lambda>c. c \<noteq> CHR 0x0A) content = newline # rest"
  have "length (dropWhile (\<lambda>c. c \<noteq> CHR 0x0A) content) \<le> length content"
    by (rule length_dropWhile_le)
  with d show "(rest, content) \<in> measure length" by simp
qed

declare getlines.simps [simp del]

definition readStatus_line :: "string \<Rightarrow> bool \<Rightarrow> bool" where
  "readStatus_line line active =
     (if CHR ''='' \<notin> set line then active
      else (let key = takeWhile (\<lambda>c. c \<noteq> CHR ''='') line;
                val = tl (dropWhile (\<lambda>c. c \<noteq> CHR ''='') line)
            in if key = ''active'' then (val = ''1'' \<or> val = ''true'' \<or> val = ''TRUE'')
               else active))"

definition readStatus_active :: "string option \<Rightarrow> bool" where
  "readStatus_active file =
     (case file of
        None \<Rightarrow> False
      | Some text \<Rightarrow> fold readStatus_line (getlines text) False)"

section \<open>Notions the properties are stated with\<close>

text \<open>
  What the history says about the flag, read from the most recent event backwards: the
  flag is to be set exactly when the last three events are one acquisition attempt in
  which the screen saver, idle and sleep leases were all obtained (a cleanup after it
  would be the most recent event instead).
\<close>

fun full_attempt_holds :: "event list \<Rightarrow> bool" where
  "full_attempt_holds (Acquire_login1 w2 sleep # Acquire_login1 w1 idle # Acquire_screen screen # earlier) =
     (w1 = ''idle'' \<and> w2 = ''sleep'' \<and> screen \<and> idle \<and> sleep)"
| "full_attempt_holds _ = False"

definition active_by_history :: "event list \<Rightarrow> bool" where
  "active_by_history h = full_attempt_holds (rev h)"

definition tells_truth :: "state \<Rightarrow> bool" where
  "tells_truth s = (inhibitorsActive s = active_by_history (history s))"

text \<open>The outside calls that belong to acquiring each lease, and those that give one back.\<close>

fun screen_effect :: "effect \<Rightarrow> bool" where
  "screen_effect (Bus_get b) = (b = DBUS_BUS_SESSION)"
| "screen_effect (New_method_call m) = (m = ScreenSaver_Inhibit)"
| "screen_effect (Send_and_block c m args) = (m = ScreenSaver_Inhibit)"
| "screen_effect _ = False"

fun login1_effect :: "string \<Rightarrow> effect \<Rightarrow> bool" where
  "login1_effect what (Bus_get b) = (b = DBUS_BUS_SYSTEM)"
| "login1_effect what (New_method_call m) = (m = Login1_Inhibit)"
| "login1_effect what (Send_and_block c m args) =
     (m = Login1_Inhibit \<and> (case args of a # _ \<Rightarrow> a = STRING what | [] \<Rightarrow> False))"
| "login1_effect what _ = False"

definition attempt_of :: "(effect \<Rightarrow> bool) \<Rightarrow> effect list \<Rightarrow> bool" where
  "attempt_of P t = (t \<noteq> [] \<and> list_all P t)"

fun release_effect :: "effect \<Rightarrow> bool" where
  "release_effect (Send_and_block c m args) = (m = ScreenSaver_UnInhibit)"
| "release_effect (Close fd) = True"
| "release_effect _ = False"

text \<open>
  The status file holds exactly the four lines of the state; and: the process has made an
  outside call, and if the latest one (always the opening of the status file) succeeded,
  the file holds what the stream took of the four lines of the state.
\<close>

definition published :: "world \<Rightarrow> state \<Rightarrow> bool" where
  "published w s = (statusFile s = Some (statusText w s))"

definition in_step :: "world \<Rightarrow> state \<Rightarrow> bool" where
  "in_step w s =
     (0 < clock s \<and>
      (ofstream_is_open w (clock s - 1) \<longrightarrow>
         statusFile s = Some (inserted (ofstream_fail w (clock s - 1)) (statusText w s))))"

text \<open>A world in which every bus connects and every Inhibit call is answered with a lease.\<close>

definition grants :: "world \<Rightarrow> bool" where
  "grants w =
     (\<forall>n. (\<forall>b. \<exists>c. dbus_bus_get w n b = BusConnection c)
        \<and> dbus_message_new_method_call w n ScreenSaver_Inhibit
        \<and> dbus_message_new_method_call w n Login1_Inhibit
        \<and> (\<forall>a. \<exists>k r. dbus_send_with_reply w n ScreenSaver_Inhibit a = SendReply (UINT32 k # r))
        \<and> (\<forall>a. \<exists>fd r. dbus_send_with_reply w n Login1_Inhibit a = SendReply (UNIX_FD fd # r)))"


text \<open>
  A pass in which no acquire request and no termination signal arrives (release requests
  may), and a state in which the flag is false and neither of the two is pending.
\<close>

definition quiet :: "pass \<Rightarrow> bool" where
  "quiet p = (case p of (before_while, before_acquire, before_release) \<Rightarrow>
     list_all (\<lambda>sg. sg = SIGUSR2 \<or> sg = SIGOTHER) (before_while @ before_acquire @ before_release))"

definition resting :: "state \<Rightarrow> bool" where
  "resting s = (\<not> inhibitorsActive s \<and> \<not> acquireRequested s \<and> \<not> terminationRequested s)"

text \<open>
  Two states that differ at most in the debug flag, in what was printed and in the debug
  line of the status file: everything else is equal, and the two files are the same, or
  are what the stream took (the same number of characters in both) of the four lines of
  the same flag and message under the two debug flags.
\<close>

definition files_agree :: "world \<Rightarrow> bool \<Rightarrow> string option \<Rightarrow> bool \<Rightarrow> string option \<Rightarrow> bool" where
  "files_agree w d1 f1 d2 f2 =
     (f1 = f2 \<or>
      (\<exists>active message failure.
         f1 = Some (inserted failure
                (concat (map (\<lambda>l. l @ [CHR 0x0A]) (statusLines (getpid w) active d1 message))))
       \<and> f2 = Some (inserted failure
                (concat (map (\<lambda>l. l @ [CHR 0x0A]) (statusLines (getpid w) active d2 message))))))"

definition same_but_debug :: "world \<Rightarrow> state \<Rightarrow> state \<Rightarrow> bool" where
  "same_but_debug w s t =
     (inhibitorHandles s = inhibitorHandles t
      \<and> inhibitorsActive s = inhibitorsActive t
      \<and> terminationRequested s = terminationRequested t
      \<and> acquireRequested s = acquireRequested t
      \<and> releaseRequested s = releaseRequested t
      \<and> lastQbusError s = lastQbusError t
      \<and> effects s = effects t
      \<and> history s = history t
      \<and> clock s = clock t
      \<and> files_agree w (debugLoggingEnabled s) (statusFile s) (debugLoggingEnabled t) (statusFile t))"

text \<open>
  A termination request reaches the loop: SIGTERM or SIGINT arrives before the \<open>while\<close>
  condition of some pass is read, that is before the first read of a pass, or later in a
  pass that is not the last one of the run. \<open>last_state\<close> is the state the loop is in
  when the run ends or the loop is left.
\<close>

definition terminating :: "signal list \<Rightarrow> bool" where
  "terminating sigs = (SIGTERM \<in> set sigs \<or> SIGINT \<in> set sigs)"

fun termination_seen :: "pass list \<Rightarrow> bool" where
  "termination_seen [] = False"
| "termination_seen ((before_while, before_acquire, before_release) # passes) =
     (terminating before_while
      \<or> terminating (before_acquire @ before_release) \<and> passes \<noteq> []
      \<or> termination_seen passes)"

fun last_state :: "loop_exit \<Rightarrow> state" where
  "last_state (Still_looping s) = s"
| "last_state (Left_loop s) = s"

fun stopped :: "outcome \<Rightarrow> bool" where
  "stopped (Running s) = False"
| "stopped (Stopped s) = True"

text \<open>
  The body of an acquire function in steps, for the proofs: the connection, taken from
  the handles or opened and stored, and the handling of the reply.
\<close>

definition connection_step :: "world \<Rightarrow> bus \<Rightarrow> string \<Rightarrow> state \<Rightarrow> connection option \<times> state" where
  "connection_step w b label s =
     (case (case b of DBUS_BUS_SESSION \<Rightarrow> sessionConnection (inhibitorHandles s)
                    | DBUS_BUS_SYSTEM \<Rightarrow> systemConnection (inhibitorHandles s)) of
        None \<Rightarrow>
          (let (c, t) = getConnection w b label s
           in (c, t\<lparr>inhibitorHandles :=
                     (case b of DBUS_BUS_SESSION \<Rightarrow> (inhibitorHandles t)\<lparr>sessionConnection := c\<rparr>
                              | DBUS_BUS_SYSTEM \<Rightarrow> (inhibitorHandles t)\<lparr>systemConnection := c\<rparr>)\<rparr>))
      | Some c \<Rightarrow> (Some c, s))"

definition screen_reply_step :: "world \<Rightarrow> send_result \<Rightarrow> state \<Rightarrow> bool \<times> state" where
  "screen_reply_step w reply s3 =
     (case reply of
        SendError m \<Rightarrow> (False, setStatusMessage w (''ScreenSaver.Inhibit failed: '' @ m) s3)
      | SendNull \<Rightarrow> (False, setStatusMessage w ''ScreenSaver.Inhibit returned null reply.'' s3)
      | SendReply args \<Rightarrow>
          (case args of
             UINT32 cookie # _ \<Rightarrow>
               (True,
                logDebug (''Screen saver inhibitor acquired. Cookie='' @ to_string (uint cookie))
                  (s3\<lparr>inhibitorHandles := (inhibitorHandles s3)\<lparr>screenSaverCookie := cookie\<rparr>\<rparr>))
           | _ \<Rightarrow>
               (False,
                setStatusMessage w
                  (''Unable to parse ScreenSaver.Inhibit reply: '' @ dbus_get_args_error w args) s3)))"

definition login1_reply_step ::
  "world \<Rightarrow> string \<Rightarrow> fd_ref \<Rightarrow> send_result \<Rightarrow> state \<Rightarrow> bool \<times> state" where
  "login1_reply_step w what fdOut reply s3 =
     (case reply of
        SendError m \<Rightarrow>
          (False, setStatusMessage w (''login1.Inhibit('' @ what @ '') failed: '' @ m) s3)
      | SendNull \<Rightarrow>
          (False, setStatusMessage w (''login1.Inhibit('' @ what @ '') returned null reply.'') s3)
      | SendReply args \<Rightarrow>
          (case args of
             [] \<Rightarrow>
               (False,
                setStatusMessage w (''login1.Inhibit('' @ what @ '') reply has no arguments.'') s3)
           | UNIX_FD fd # _ \<Rightarrow>
               (True,
                logDebug (''systemd inhibitor for '' @ what @ '' acquired. FD='' @ to_string fd)
                  (s3\<lparr>inhibitorHandles := set_fd fdOut fd (inhibitorHandles s3)\<rparr>))
           | _ \<Rightarrow>
               (False,
                setStatusMessage w (''login1.Inhibit('' @ what @ '') reply is not a UNIX FD.'') s3)))"

section \<open>Worlds for the examples\<close>

text \<open>Every bus answers and every lease is granted; the status file opens and is written in full.\<close>

definition friendly :: world where
  "friendly =
     \<lparr>getpid = 4242,
      dbus_bus_get =
        (\<lambda>n b. BusConnection (case b of DBUS_BUS_SESSION \<Rightarrow> 1 | DBUS_BUS_SYSTEM \<Rightarrow> 2)),
      dbus_message_new_method_call = (\<lambda>n m. True),
      dbus_send_with_reply =
        (\<lambda>n m args. case m of
             ScreenSaver_Inhibit \<Rightarrow> SendReply [UINT32 7]
           | Login1_Inhibit \<Rightarrow> SendReply [UNIX_FD (int n)]
           | ScreenSaver_UnInhibit \<Rightarrow> SendReply []),
      dbus_get_args_error = (\<lambda>args. ''Argument 0 is specified to be of type uint32''),
      ofstream_is_open = (\<lambda>n. True),
      ofstream_fail = (\<lambda>n. None)\<rparr>"

text \<open>
  The same, but \<open>/tmp/caffeine8.status\<close> cannot be opened for writing: it is there
  already, left by an instance of another user.
\<close>

definition unwritable :: world where
  "unwritable = friendly\<lparr>ofstream_is_open := (\<lambda>n. False)\<rparr>"

text \<open>The same, but the file system is full: the file opens, and no character reaches it.\<close>

definition full_disk :: world where
  "full_disk = friendly\<lparr>ofstream_fail := (\<lambda>n. Some 0)\<rparr>"

definition stale_file :: string where
  "stale_file = ''pid=77\<newline>active=0\<newline>debug=0\<newline>message=NONE\<newline>''"

text \<open>A message of two lines, ended the DOS way.\<close>

definition two_line_message :: string where
  "two_line_message = ''one'' @ [CHR 0x0D, CHR 0x0A] @ ''two''"

text \<open>
  The state the friendly world leads a fresh process to (\<open>friendly_start\<close> below): all
  three leases held.
\<close>

definition holding :: state where
  "holding =
     \<lparr>inhibitorHandles =
        \<lparr>sessionConnection = Some 1, systemConnection = Some 2, screenSaverCookie = 7,
         idleFd = 5, sleepFd = 7\<rparr>,
      debugLoggingEnabled = False,
      inhibitorsActive = True,
      terminationRequested = False,
      acquireRequested = False,
      releaseRequested = False,
      lastQbusError = ''Inhibitors active (screen saver, idle, sleep).'',
      statusFile = Some (''pid=4242\<newline>active=1\<newline>debug=0\<newline>''
        @ ''message=Inhibitors active (screen saver, idle, sleep).\<newline>''),
      stdout = [],
      effects =
        [Bus_get DBUS_BUS_SESSION, New_method_call ScreenSaver_Inhibit,
         Send_and_block 1 ScreenSaver_Inhibit
           [STRING ''caffeine8'', STRING ''caffeine8 prevents automatic locking''],
         Bus_get DBUS_BUS_SYSTEM, New_method_call Login1_Inhibit,
         Send_and_block 2 Login1_Inhibit
           [STRING ''idle'', STRING ''caffeine8'',
            STRING ''caffeine8 is preventing automatic sleep'', STRING ''block''],
         New_method_call Login1_Inhibit,
         Send_and_block 2 Login1_Inhibit
           [STRING ''sleep'', STRING ''caffeine8'',
            STRING ''caffeine8 is preventing automatic sleep'', STRING ''block'']],
      history = [Acquire_screen True, Acquire_login1 ''idle'' True, Acquire_login1 ''sleep'' True],
      clock = 9\<rparr>"


text \<open>
  No screen-saver service is running: \<open>ScreenSaver.Inhibit\<close> fails, while login1 hands
  out descriptors. \<open>partly\<close> is where a fresh process gets to in this world, and
  \<open>partly_again\<close> where an acquire request then takes it.
\<close>

definition no_screen_saver :: world where
  "no_screen_saver =
     friendly\<lparr>dbus_send_with_reply :=
       (\<lambda>n m args. case m of
            ScreenSaver_Inhibit \<Rightarrow> SendError ''The name org.freedesktop.ScreenSaver was not provided''
          | Login1_Inhibit \<Rightarrow> SendReply [UNIX_FD (int n)]
          | ScreenSaver_UnInhibit \<Rightarrow> SendReply [])\<rparr>"

definition partly :: state where
  "partly =
     \<lparr>inhibitorHandles =
        \<lparr>sessionConnection = Some 1, systemConnection = Some 2, screenSaverCookie = 0,
         idleFd = 6, sleepFd = 8\<rparr>,
      debugLoggingEnabled = False,
      inhibitorsActive = False,
      terminationRequested = False,
      acquireRequested = False,
      releaseRequested = False,
      lastQbusError =
        ''ScreenSaver.Inhibit failed: The name org.freedesktop.ScreenSaver was not provided'',
      statusFile = Some (''pid=4242\<newline>active=0\<newline>debug=0\<newline>''
        @ ''message=ScreenSaver.Inhibit failed: ''
        @ ''The name org.freedesktop.ScreenSaver was not provided\<newline>''),
      stdout = [],
      effects =
        [Bus_get DBUS_BUS_SESSION, New_method_call ScreenSaver_Inhibit,
         Send_and_block 1 ScreenSaver_Inhibit
           [STRING ''caffeine8'', STRING ''caffeine8 prevents automatic locking''],
         Bus_get DBUS_BUS_SYSTEM, New_method_call Login1_Inhibit,
         Send_and_block 2 Login1_Inhibit
           [STRING ''idle'', STRING ''caffeine8'',
            STRING ''caffeine8 is preventing automatic sleep'', STRING ''block''],
         New_method_call Login1_Inhibit,
         Send_and_block 2 Login1_Inhibit
           [STRING ''sleep'', STRING ''caffeine8'',
            STRING ''caffeine8 is preventing automatic sleep'', STRING ''block'']],
      history = [Acquire_screen False, Acquire_login1 ''idle'' True, Acquire_login1 ''sleep'' True],
      clock = 10\<rparr>"

definition partly_again :: state where
  "partly_again =
     partly\<lparr>inhibitorHandles :=
        \<lparr>sessionConnection = Some 1, systemConnection = Some 2, screenSaverCookie = 0,
         idleFd = 14, sleepFd = 16\<rparr>,
      effects := effects partly @
        [New_method_call ScreenSaver_Inhibit,
         Send_and_block 1 ScreenSaver_Inhibit
           [STRING ''caffeine8'', STRING ''caffeine8 prevents automatic locking''],
         New_method_call Login1_Inhibit,
         Send_and_block 2 Login1_Inhibit
           [STRING ''idle'', STRING ''caffeine8'',
            STRING ''caffeine8 is preventing automatic sleep'', STRING ''block''],
         New_method_call Login1_Inhibit,
         Send_and_block 2 Login1_Inhibit
           [STRING ''sleep'', STRING ''caffeine8'',
            STRING ''caffeine8 is preventing automatic sleep'', STRING ''block'']],
      history := history partly @
        [Acquire_screen False, Acquire_login1 ''idle'' True, Acquire_login1 ''sleep'' True],
      clock := 18\<rparr>"



section \<open>What each function leaves alone\<close>

lemma logDebug_frame [simp]:
  "inhibitorHandles (logDebug m s) = inhibitorHandles s"
  "debugLoggingEnabled (logDebug m s) = debugLoggingEnabled s"
  "inhibitorsActive (logDebug m s) = inhibitorsActive s"
  "terminationRequested (logDebug m s) = terminationRequested s"
  "acquireRequested (logDebug m s) = acquireRequested s"
  "releaseRequested (logDebug m s) = releaseRequested s"
  "lastQbusError (logDebug m s) = lastQbusError s"
  "statusFile (logDebug m s) = statusFile s"
  "effects (logDebug m s) = effects s"
  "history (logDebug m s) = history s"
  "clock (logDebug m s) = clock s"
  by (simp_all add: logDebug_def)

lemma updateStatusFile_frame [simp]:
  "inhibitorHandles (updateStatusFile w s) = inhibitorHandles s"
  "debugLoggingEnabled (updateStatusFile w s) = debugLoggingEnabled s"
  "inhibitorsActive (updateStatusFile w s) = inhibitorsActive s"
  "terminationRequested (updateStatusFile w s) = terminationRequested s"
  "acquireRequested (updateStatusFile w s) = acquireRequested s"
  "releaseRequested (updateStatusFile w s) = releaseRequested s"
  "lastQbusError (updateStatusFile w s) = lastQbusError s"
  "effects (updateStatusFile w s) = effects s"
  "history (updateStatusFile w s) = history s"
  "clock (updateStatusFile w s) = Suc (clock s)"
  by (simp_all add: updateStatusFile_def Let_def)

lemma setStatusMessage_frame [simp]:
  "inhibitorHandles (setStatusMessage w m s) = inhibitorHandles s"
  "debugLoggingEnabled (setStatusMessage w m s) = debugLoggingEnabled s"
  "inhibitorsActive (setStatusMessage w m s) = inhibitorsActive s"
  "terminationRequested (setStatusMessage w m s) = terminationRequested s"
  "acquireRequested (setStatusMessage w m s) = acquireRequested s"
  "releaseRequested (setStatusMessage w m s) = releaseRequested s"
  "lastQbusError (setStatusMessage w m s) = m"
  "effects (setStatusMessage w m s) = effects s"
  "history (setStatusMessage w m s) = history s"
  "clock (setStatusMessage w m s) = Suc (clock s)"
  by (simp_all add: setStatusMessage_def)

lemma outside_call_frame [simp]:
  "inhibitorHandles (outside_call e s) = inhibitorHandles s"
  "debugLoggingEnabled (outside_call e s) = debugLoggingEnabled s"
  "inhibitorsActive (outside_call e s) = inhibitorsActive s"
  "terminationRequested (outside_call e s) = terminationRequested s"
  "acquireRequested (outside_call e s) = acquireRequested s"
  "releaseRequested (outside_call e s) = releaseRequested s"
  "lastQbusError (outside_call e s) = lastQbusError s"
  "statusFile (outside_call e s) = statusFile s"
  "stdout (outside_call e s) = stdout s"
  "effects (outside_call e s) = effects s @ [e]"
  "history (outside_call e s) = history s"
  "clock (outside_call e s) = Suc (clock s)"
  by (simp_all add: outside_call_def)

lemma getConnection_frame [simp]:
  "inhibitorHandles (snd (getConnection w b l s)) = inhibitorHandles s"
  "debugLoggingEnabled (snd (getConnection w b l s)) = debugLoggingEnabled s"
  "inhibitorsActive (snd (getConnection w b l s)) = inhibitorsActive s"
  "terminationRequested (snd (getConnection w b l s)) = terminationRequested s"
  "acquireRequested (snd (getConnection w b l s)) = acquireRequested s"
  "releaseRequested (snd (getConnection w b l s)) = releaseRequested s"
  "effects (snd (getConnection w b l s)) = effects s @ [Bus_get b]"
  "history (snd (getConnection w b l s)) = history s"
  by (simp_all add: getConnection_def Let_def split: bus_result.splits)

lemmas body_splits =
  option.splits send_result.splits list.splits dbus_arg.splits bus_result.splits

lemma screen_body_frame [simp]:
  "debugLoggingEnabled (snd (acquireScreenSaverInhibitor_body w s)) = debugLoggingEnabled s"
  "inhibitorsActive (snd (acquireScreenSaverInhibitor_body w s)) = inhibitorsActive s"
  "terminationRequested (snd (acquireScreenSaverInhibitor_body w s)) = terminationRequested s"
  "acquireRequested (snd (acquireScreenSaverInhibitor_body w s)) = acquireRequested s"
  "releaseRequested (snd (acquireScreenSaverInhibitor_body w s)) = releaseRequested s"
  "history (snd (acquireScreenSaverInhibitor_body w s)) = history s"
  "systemConnection (inhibitorHandles (snd (acquireScreenSaverInhibitor_body w s)))
     = systemConnection (inhibitorHandles s)"
  "idleFd (inhibitorHandles (snd (acquireScreenSaverInhibitor_body w s))) = idleFd (inhibitorHandles s)"
  "sleepFd (inhibitorHandles (snd (acquireScreenSaverInhibitor_body w s))) = sleepFd (inhibitorHandles s)"
  by (simp_all add: acquireScreenSaverInhibitor_body_def Let_def split_beta split: body_splits)

lemma login1_body_frame [simp]:
  "debugLoggingEnabled (snd (acquireLogin1Inhibitor_body w what r s)) = debugLoggingEnabled s"
  "inhibitorsActive (snd (acquireLogin1Inhibitor_body w what r s)) = inhibitorsActive s"
  "terminationRequested (snd (acquireLogin1Inhibitor_body w what r s)) = terminationRequested s"
  "acquireRequested (snd (acquireLogin1Inhibitor_body w what r s)) = acquireRequested s"
  "releaseRequested (snd (acquireLogin1Inhibitor_body w what r s)) = releaseRequested s"
  "history (snd (acquireLogin1Inhibitor_body w what r s)) = history s"
  "sessionConnection (inhibitorHandles (snd (acquireLogin1Inhibitor_body w what r s)))
     = sessionConnection (inhibitorHandles s)"
  "screenSaverCookie (inhibitorHandles (snd (acquireLogin1Inhibitor_body w what r s)))
     = screenSaverCookie (inhibitorHandles s)"
  by (cases r; simp add: acquireLogin1Inhibitor_body_def Let_def split_beta split: body_splits)+

lemma login1_body_other_fd:
  "r' \<noteq> r \<Longrightarrow>
   get_fd r' (inhibitorHandles (snd (acquireLogin1Inhibitor_body w what r s)))
     = get_fd r' (inhibitorHandles s)"
  by (cases r; cases r';
      simp add: acquireLogin1Inhibitor_body_def Let_def split_beta split: body_splits)

lemma screen_body_failed_keeps_cookie:
  "fst (acquireScreenSaverInhibitor_body w s) \<or>
   screenSaverCookie (inhibitorHandles (snd (acquireScreenSaverInhibitor_body w s)))
     = screenSaverCookie (inhibitorHandles s)"
  by (simp add: acquireScreenSaverInhibitor_body_def Let_def split_beta split: body_splits)

lemma login1_body_failed_keeps_fd:
  "fst (acquireLogin1Inhibitor_body w what r s) \<or>
   get_fd r' (inhibitorHandles (snd (acquireLogin1Inhibitor_body w what r s)))
     = get_fd r' (inhibitorHandles s)"
  by (cases r; cases r';
      simp add: acquireLogin1Inhibitor_body_def Let_def split_beta split: body_splits)

lemma screen_body_effects:
  "\<exists>t. effects (snd (acquireScreenSaverInhibitor_body w s)) = effects s @ t
       \<and> attempt_of screen_effect t"
  by (simp add: acquireScreenSaverInhibitor_body_def Let_def split_beta attempt_of_def
      split: body_splits)

lemma login1_body_effects:
  "\<exists>t. effects (snd (acquireLogin1Inhibitor_body w what r s)) = effects s @ t
       \<and> attempt_of (login1_effect what) t"
  by (simp add: acquireLogin1Inhibitor_body_def Let_def split_beta attempt_of_def
      split: body_splits)

lemma screen_effects:
  "\<exists>t. effects (snd (acquireScreenSaverInhibitor w s)) = effects s @ t
       \<and> attempt_of screen_effect t"
  using screen_body_effects [of w s]
  by (simp add: acquireScreenSaverInhibitor_def split_beta)

lemma login1_effects:
  "\<exists>t. effects (snd (acquireLogin1Inhibitor w what r s)) = effects s @ t
       \<and> attempt_of (login1_effect what) t"
  using login1_body_effects [of w what r s]
  by (simp add: acquireLogin1Inhibitor_def split_beta)

lemma acquireInhibitors_effects:
  "\<exists>t1 t2 t3.
     effects (snd (acquireInhibitors w s)) = effects s @ t1 @ t2 @ t3
     \<and> attempt_of screen_effect t1
     \<and> attempt_of (login1_effect ''idle'') t2
     \<and> attempt_of (login1_effect ''sleep'') t3"
proof -
  obtain s1 where s1: "s1 = snd (acquireScreenSaverInhibitor w s)" by simp
  obtain s2 where s2: "s2 = snd (acquireLogin1Inhibitor w ''idle'' Ref_idleFd s1)" by simp
  obtain s3 where s3: "s3 = snd (acquireLogin1Inhibitor w ''sleep'' Ref_sleepFd s2)" by simp
  obtain t1 where t1: "effects s1 = effects s @ t1" "attempt_of screen_effect t1"
    using screen_effects [of w s] s1 by auto
  obtain t2 where t2: "effects s2 = effects s1 @ t2" "attempt_of (login1_effect ''idle'') t2"
    using login1_effects [of w "''idle''" Ref_idleFd s1] s2 by auto
  obtain t3 where t3: "effects s3 = effects s2 @ t3" "attempt_of (login1_effect ''sleep'') t3"
    using login1_effects [of w "''sleep''" Ref_sleepFd s2] s3 by auto
  have "effects (snd (acquireInhibitors w s)) = effects s3"
    by (simp add: acquireInhibitors_def split_beta Let_def s1 s2 s3)
  with t1 t2 t3 show ?thesis by auto
qed

lemma acquireScreenSaverInhibitor_history [simp]:
  "history (snd (acquireScreenSaverInhibitor w s)) =
     history s @ [Acquire_screen (fst (acquireScreenSaverInhibitor w s))]"
  by (simp add: acquireScreenSaverInhibitor_def split_beta)

lemma acquireLogin1Inhibitor_history [simp]:
  "history (snd (acquireLogin1Inhibitor w what r s)) =
     history s @ [Acquire_login1 what (fst (acquireLogin1Inhibitor w what r s))]"
  by (simp add: acquireLogin1Inhibitor_def split_beta)

lemma acquireInhibitors_history:
  "history (snd (acquireInhibitors w s)) =
     history s @
       [Acquire_screen (fst (acquireScreenSaverInhibitor w s)),
        Acquire_login1 ''idle''
          (fst (acquireLogin1Inhibitor w ''idle'' Ref_idleFd (snd (acquireScreenSaverInhibitor w s)))),
        Acquire_login1 ''sleep''
          (fst (acquireLogin1Inhibitor w ''sleep'' Ref_sleepFd
             (snd (acquireLogin1Inhibitor w ''idle'' Ref_idleFd
                (snd (acquireScreenSaverInhibitor w s))))))]"
  by (simp add: acquireInhibitors_def split_beta Let_def)

lemma acquireInhibitors_active:
  "inhibitorsActive (snd (acquireInhibitors w s)) =
     (fst (acquireScreenSaverInhibitor w s) \<and>
      fst (acquireLogin1Inhibitor w ''idle'' Ref_idleFd (snd (acquireScreenSaverInhibitor w s))) \<and>
      fst (acquireLogin1Inhibitor w ''sleep'' Ref_sleepFd
             (snd (acquireLogin1Inhibitor w ''idle'' Ref_idleFd
                (snd (acquireScreenSaverInhibitor w s))))))"
  by (simp add: acquireInhibitors_def split_beta Let_def)

lemma acquireInhibitors_returns_active:
  "fst (acquireInhibitors w s) = inhibitorsActive (snd (acquireInhibitors w s))"
  by (simp add: acquireInhibitors_def split_beta Let_def)

lemma acquireInhibitors_tells_truth: "tells_truth (snd (acquireInhibitors w s))"
  by (simp add: tells_truth_def active_by_history_def acquireInhibitors_history
      acquireInhibitors_active)

lemma release_screen_frame [simp]:
  "debugLoggingEnabled (releaseScreenSaverInhibitor w s) = debugLoggingEnabled s"
  "inhibitorsActive (releaseScreenSaverInhibitor w s) = inhibitorsActive s"
  "terminationRequested (releaseScreenSaverInhibitor w s) = terminationRequested s"
  "acquireRequested (releaseScreenSaverInhibitor w s) = acquireRequested s"
  "releaseRequested (releaseScreenSaverInhibitor w s) = releaseRequested s"
  "lastQbusError (releaseScreenSaverInhibitor w s) = lastQbusError s"
  "statusFile (releaseScreenSaverInhibitor w s) = statusFile s"
  "history (releaseScreenSaverInhibitor w s) = history s"
  "sessionConnection (inhibitorHandles (releaseScreenSaverInhibitor w s))
     = sessionConnection (inhibitorHandles s)"
  "systemConnection (inhibitorHandles (releaseScreenSaverInhibitor w s))
     = systemConnection (inhibitorHandles s)"
  "idleFd (inhibitorHandles (releaseScreenSaverInhibitor w s)) = idleFd (inhibitorHandles s)"
  "sleepFd (inhibitorHandles (releaseScreenSaverInhibitor w s)) = sleepFd (inhibitorHandles s)"
  by (simp_all add: releaseScreenSaverInhibitor_def Let_def split: option.splits send_result.splits)

lemma release_fd_frame [simp]:
  "debugLoggingEnabled (releaseLogin1Fd r what s) = debugLoggingEnabled s"
  "inhibitorsActive (releaseLogin1Fd r what s) = inhibitorsActive s"
  "terminationRequested (releaseLogin1Fd r what s) = terminationRequested s"
  "acquireRequested (releaseLogin1Fd r what s) = acquireRequested s"
  "releaseRequested (releaseLogin1Fd r what s) = releaseRequested s"
  "lastQbusError (releaseLogin1Fd r what s) = lastQbusError s"
  "statusFile (releaseLogin1Fd r what s) = statusFile s"
  "history (releaseLogin1Fd r what s) = history s"
  "sessionConnection (inhibitorHandles (releaseLogin1Fd r what s))
     = sessionConnection (inhibitorHandles s)"
  "systemConnection (inhibitorHandles (releaseLogin1Fd r what s))
     = systemConnection (inhibitorHandles s)"
  "screenSaverCookie (inhibitorHandles (releaseLogin1Fd r what s))
     = screenSaverCookie (inhibitorHandles s)"
  by (cases r; simp add: releaseLogin1Fd_def Let_def)+

lemma drop_connection_frame [simp]:
  "debugLoggingEnabled (drop_connection b s) = debugLoggingEnabled s"
  "inhibitorsActive (drop_connection b s) = inhibitorsActive s"
  "terminationRequested (drop_connection b s) = terminationRequested s"
  "acquireRequested (drop_connection b s) = acquireRequested s"
  "releaseRequested (drop_connection b s) = releaseRequested s"
  "lastQbusError (drop_connection b s) = lastQbusError s"
  "statusFile (drop_connection b s) = statusFile s"
  "stdout (drop_connection b s) = stdout s"
  "history (drop_connection b s) = history s"
  "screenSaverCookie (inhibitorHandles (drop_connection b s))
     = screenSaverCookie (inhibitorHandles s)"
  "idleFd (inhibitorHandles (drop_connection b s)) = idleFd (inhibitorHandles s)"
  "sleepFd (inhibitorHandles (drop_connection b s)) = sleepFd (inhibitorHandles s)"
  by (simp_all add: drop_connection_def Let_def split: option.splits bus.splits)

lemma cleanupInhibitors_frame [simp]:
  "debugLoggingEnabled (cleanupInhibitors w s) = debugLoggingEnabled s"
  "inhibitorsActive (cleanupInhibitors w s) = False"
  "terminationRequested (cleanupInhibitors w s) = terminationRequested s"
  "acquireRequested (cleanupInhibitors w s) = acquireRequested s"
  "releaseRequested (cleanupInhibitors w s) = releaseRequested s"
  "lastQbusError (cleanupInhibitors w s) = lastQbusError s"
  "history (cleanupInhibitors w s) = history s @ [Cleanup]"
  by (simp_all add: cleanupInhibitors_def Let_def)

lemma handleSignal_frame [simp]:
  "inhibitorHandles (handleSignal sg s) = inhibitorHandles s"
  "debugLoggingEnabled (handleSignal sg s) = debugLoggingEnabled s"
  "inhibitorsActive (handleSignal sg s) = inhibitorsActive s"
  "lastQbusError (handleSignal sg s) = lastQbusError s"
  "statusFile (handleSignal sg s) = statusFile s"
  "stdout (handleSignal sg s) = stdout s"
  "effects (handleSignal sg s) = effects s"
  "history (handleSignal sg s) = history s"
  "clock (handleSignal sg s) = clock s"
  by (cases sg; simp)+

lemma deliver_frame [simp]:
  "inhibitorHandles (deliver sigs s) = inhibitorHandles s"
  "debugLoggingEnabled (deliver sigs s) = debugLoggingEnabled s"
  "inhibitorsActive (deliver sigs s) = inhibitorsActive s"
  "lastQbusError (deliver sigs s) = lastQbusError s"
  "statusFile (deliver sigs s) = statusFile s"
  "stdout (deliver sigs s) = stdout s"
  "effects (deliver sigs s) = effects s"
  "history (deliver sigs s) = history s"
  "clock (deliver sigs s) = clock s"
  unfolding deliver_def by (induction sigs arbitrary: s; simp)+

section \<open>The flag and the history\<close>

lemma onAcquireRequested_tells_truth:
  "tells_truth s \<Longrightarrow> tells_truth (onAcquireRequested w s)"
  using acquireInhibitors_tells_truth [of w "s\<lparr>acquireRequested := False\<rparr>"]
  by (auto simp: onAcquireRequested_def Let_def split_beta tells_truth_def)

lemma onReleaseRequested_tells_truth:
  "tells_truth s \<Longrightarrow> tells_truth (onReleaseRequested w s)"
  by (auto simp: onReleaseRequested_def Let_def tells_truth_def active_by_history_def)

lemma onTermination_tells_truth: "tells_truth (onTermination w s)"
  by (auto simp: onTermination_def Let_def tells_truth_def active_by_history_def)

lemma deliver_tells_truth: "tells_truth s \<Longrightarrow> tells_truth (deliver sigs s)"
  by (simp add: tells_truth_def)

lemma whileLoop_tells_truth:
  "tells_truth s \<Longrightarrow>
   (case whileLoop w passes s of Still_looping t \<Rightarrow> tells_truth t | Left_loop t \<Rightarrow> tells_truth t)"
proof (induction passes arbitrary: s)
  case Nil
  then show ?case by simp
next
  case (Cons p passes)
  obtain a b c where p: "p = (a, b, c)" by (cases p) auto
  show ?case
  proof (cases "terminationRequested (deliver a s)")
    case True
    then show ?thesis using Cons.prems by (simp add: p deliver_tells_truth)
  next
    case False
    have "tells_truth (onReleaseRequested w (deliver c (onAcquireRequested w (deliver b (deliver a s)))))"
      by (intro onReleaseRequested_tells_truth deliver_tells_truth onAcquireRequested_tells_truth
          Cons.prems)
    from Cons.IH [OF this] show ?thesis using False by (simp add: p)
  qed
qed

lemma beforeLoop_tells_truth: "tells_truth (beforeLoop w s)"
  using acquireInhibitors_tells_truth [of w s]
  by (simp add: beforeLoop_def split_beta tells_truth_def)

text \<open>
  Claim C1. Whatever signals arrive and whatever the buses answer, at the end of every
  pass of the loop and after the final cleanup \<open>inhibitorsActive\<close> is true exactly
  when the most recent event of the run is a full acquisition attempt that obtained the
  screen saver, the idle and the sleep lease, with no cleanup (on a release request or
  on termination) after it.
\<close>

theorem C1_active_iff_last_attempt_held:
  "inhibitorsActive (state_of (runInhibitorLoop w passes s)) =
     active_by_history (history (state_of (runInhibitorLoop w passes s)))"
proof -
  have "tells_truth (state_of (runInhibitorLoop w passes s))"
    using whileLoop_tells_truth [OF beforeLoop_tells_truth, of w passes w s]
    by (simp add: runInhibitorLoop_def onTermination_tells_truth split: loop_exit.splits)
  then show ?thesis by (simp add: tells_truth_def)
qed

text \<open>
  Claim C10. A call of \<open>acquireInhibitors\<close> always runs the three acquisitions, screen
  saver first, then idle, then sleep: each returns (whatever it returns) and each makes
  at least one call to libdbus of its own, also after an earlier one failed.
\<close>

theorem C10_all_three_attempted_in_order:
  "\<exists>screen idle sleep t1 t2 t3.
     history (snd (acquireInhibitors w s)) =
       history s @ [Acquire_screen screen, Acquire_login1 ''idle'' idle, Acquire_login1 ''sleep'' sleep]
     \<and> fst (acquireInhibitors w s) = (screen \<and> idle \<and> sleep)
     \<and> effects (snd (acquireInhibitors w s)) = effects s @ t1 @ t2 @ t3
     \<and> attempt_of screen_effect t1
     \<and> attempt_of (login1_effect ''idle'') t2
     \<and> attempt_of (login1_effect ''sleep'') t3"
proof -
  obtain t1 t2 t3 where
    "effects (snd (acquireInhibitors w s)) = effects s @ t1 @ t2 @ t3"
    "attempt_of screen_effect t1" "attempt_of (login1_effect ''idle'') t2"
    "attempt_of (login1_effect ''sleep'') t3"
    using acquireInhibitors_effects [of w s] by blast
  then show ?thesis
    using acquireInhibitors_history [of w s] acquireInhibitors_active [of w s]
      acquireInhibitors_returns_active [of w s]
    by blast
qed

section \<open>When every lease is granted\<close>

lemma grants_bus:
  "grants w \<Longrightarrow> \<exists>c. getConnection w b l s = (Some c, outside_call (Bus_get b) s)"
proof -
  assume "grants w"
  then obtain c where "dbus_bus_get w (clock s) b = BusConnection c"
    unfolding grants_def by blast
  then show ?thesis by (simp add: getConnection_def Let_def)
qed

lemma grants_screen: "grants w \<Longrightarrow> fst (acquireScreenSaverInhibitor_body w s)"
proof -
  assume g: "grants w"
  obtain c where c: "getConnection w DBUS_BUS_SESSION ''session'' s
      = (Some c, outside_call (Bus_get DBUS_BUS_SESSION) s)"
    using grants_bus [OF g] by blast
  have m: "dbus_message_new_method_call w n ScreenSaver_Inhibit" for n
    using g unfolding grants_def by blast
  have r: "\<exists>k r. dbus_send_with_reply w n ScreenSaver_Inhibit a = SendReply (UINT32 k # r)" for n a
    using g unfolding grants_def by blast
  show ?thesis
  proof (cases "sessionConnection (inhibitorHandles s)")
    case None
    obtain k r' where "dbus_send_with_reply w (Suc (Suc (clock s))) ScreenSaver_Inhibit
        [STRING APP_NAME, STRING ''caffeine8 prevents automatic locking''] = SendReply (UINT32 k # r')"
      using r by blast
    then show ?thesis
      by (simp add: acquireScreenSaverInhibitor_body_def None c m Let_def)
  next
    case (Some d)
    obtain k r' where "dbus_send_with_reply w (Suc (clock s)) ScreenSaver_Inhibit
        [STRING APP_NAME, STRING ''caffeine8 prevents automatic locking''] = SendReply (UINT32 k # r')"
      using r by blast
    then show ?thesis
      by (simp add: acquireScreenSaverInhibitor_body_def Some m Let_def)
  qed
qed

lemma grants_login1: "grants w \<Longrightarrow> fst (acquireLogin1Inhibitor_body w what fdOut s)"
proof -
  assume g: "grants w"
  obtain c where c: "getConnection w DBUS_BUS_SYSTEM ''system'' s
      = (Some c, outside_call (Bus_get DBUS_BUS_SYSTEM) s)"
    using grants_bus [OF g] by blast
  have m: "dbus_message_new_method_call w n Login1_Inhibit" for n
    using g unfolding grants_def by blast
  have r: "\<exists>fd r. dbus_send_with_reply w n Login1_Inhibit a = SendReply (UNIX_FD fd # r)" for n a
    using g unfolding grants_def by blast
  show ?thesis
  proof (cases "systemConnection (inhibitorHandles s)")
    case None
    obtain k r' where "dbus_send_with_reply w (Suc (Suc (clock s))) Login1_Inhibit
        [STRING what, STRING APP_NAME, STRING ''caffeine8 is preventing automatic sleep'',
         STRING ''block''] = SendReply (UNIX_FD k # r')"
      using r by blast
    then show ?thesis
      by (simp add: acquireLogin1Inhibitor_body_def None c m Let_def)
  next
    case (Some d)
    obtain k r' where "dbus_send_with_reply w (Suc (clock s)) Login1_Inhibit
        [STRING what, STRING APP_NAME, STRING ''caffeine8 is preventing automatic sleep'',
         STRING ''block''] = SendReply (UNIX_FD k # r')"
      using r by blast
    then show ?thesis
      by (simp add: acquireLogin1Inhibitor_body_def Some m Let_def)
  qed
qed

lemma grants_all: "grants w \<Longrightarrow> fst (acquireInhibitors w s)"
  by (simp add: acquireInhibitors_returns_active acquireInhibitors_active
      acquireScreenSaverInhibitor_def acquireLogin1Inhibitor_def split_beta
      grants_screen grants_login1)

lemma grants_friendly: "grants friendly"
  by (simp add: grants_def friendly_def split: bus.splits)

lemma grants_unwritable: "grants unwritable"
  using grants_friendly by (simp add: grants_def unwritable_def)

lemma grants_full_disk: "grants full_disk"
  using grants_friendly by (simp add: grants_def full_disk_def)

section \<open>Releasing and cleaning up\<close>

lemma acquireScreenSaverInhibitor_body_of [simp]:
  "fst (acquireScreenSaverInhibitor w s) = fst (acquireScreenSaverInhibitor_body w s)"
  "inhibitorHandles (snd (acquireScreenSaverInhibitor w s))
     = inhibitorHandles (snd (acquireScreenSaverInhibitor_body w s))"
  "debugLoggingEnabled (snd (acquireScreenSaverInhibitor w s)) = debugLoggingEnabled s"
  "inhibitorsActive (snd (acquireScreenSaverInhibitor w s)) = inhibitorsActive s"
  "terminationRequested (snd (acquireScreenSaverInhibitor w s)) = terminationRequested s"
  "acquireRequested (snd (acquireScreenSaverInhibitor w s)) = acquireRequested s"
  "releaseRequested (snd (acquireScreenSaverInhibitor w s)) = releaseRequested s"
  "lastQbusError (snd (acquireScreenSaverInhibitor w s))
     = lastQbusError (snd (acquireScreenSaverInhibitor_body w s))"
  "statusFile (snd (acquireScreenSaverInhibitor w s))
     = statusFile (snd (acquireScreenSaverInhibitor_body w s))"
  "stdout (snd (acquireScreenSaverInhibitor w s)) = stdout (snd (acquireScreenSaverInhibitor_body w s))"
  "effects (snd (acquireScreenSaverInhibitor w s)) = effects (snd (acquireScreenSaverInhibitor_body w s))"
  "clock (snd (acquireScreenSaverInhibitor w s)) = clock (snd (acquireScreenSaverInhibitor_body w s))"
  by (simp_all add: acquireScreenSaverInhibitor_def split_beta)

lemma acquireLogin1Inhibitor_body_of [simp]:
  "fst (acquireLogin1Inhibitor w what r s) = fst (acquireLogin1Inhibitor_body w what r s)"
  "inhibitorHandles (snd (acquireLogin1Inhibitor w what r s))
     = inhibitorHandles (snd (acquireLogin1Inhibitor_body w what r s))"
  "debugLoggingEnabled (snd (acquireLogin1Inhibitor w what r s)) = debugLoggingEnabled s"
  "inhibitorsActive (snd (acquireLogin1Inhibitor w what r s)) = inhibitorsActive s"
  "terminationRequested (snd (acquireLogin1Inhibitor w what r s)) = terminationRequested s"
  "acquireRequested (snd (acquireLogin1Inhibitor w what r s)) = acquireRequested s"
  "releaseRequested (snd (acquireLogin1Inhibitor w what r s)) = releaseRequested s"
  "lastQbusError (snd (acquireLogin1Inhibitor w what r s))
     = lastQbusError (snd (acquireLogin1Inhibitor_body w what r s))"
  "statusFile (snd (acquireLogin1Inhibitor w what r s))
     = statusFile (snd (acquireLogin1Inhibitor_body w what r s))"
  "stdout (snd (acquireLogin1Inhibitor w what r s))
     = stdout (snd (acquireLogin1Inhibitor_body w what r s))"
  "effects (snd (acquireLogin1Inhibitor w what r s))
     = effects (snd (acquireLogin1Inhibitor_body w what r s))"
  "clock (snd (acquireLogin1Inhibitor w what r s)) = clock (snd (acquireLogin1Inhibitor_body w what r s))"
  by (simp_all add: acquireLogin1Inhibitor_def split_beta)

lemma acquireInhibitors_frame [simp]:
  "debugLoggingEnabled (snd (acquireInhibitors w s)) = debugLoggingEnabled s"
  "terminationRequested (snd (acquireInhibitors w s)) = terminationRequested s"
  "acquireRequested (snd (acquireInhibitors w s)) = acquireRequested s"
  "releaseRequested (snd (acquireInhibitors w s)) = releaseRequested s"
  by (simp_all add: acquireInhibitors_def split_beta Let_def)

text \<open>The handles after a full attempt are those its three steps left.\<close>

lemma acquireInhibitors_handles:
  "inhibitorHandles (snd (acquireInhibitors w s)) =
     inhibitorHandles
       (snd (acquireLogin1Inhibitor w ''sleep'' Ref_sleepFd
          (snd (acquireLogin1Inhibitor w ''idle'' Ref_idleFd
             (snd (acquireScreenSaverInhibitor w s))))))"
  by (simp add: acquireInhibitors_def split_beta Let_def)

lemma acquireInhibitors_cookie:
  "screenSaverCookie (inhibitorHandles (snd (acquireInhibitors w s))) =
     screenSaverCookie (inhibitorHandles (snd (acquireScreenSaverInhibitor w s)))"
  "sessionConnection (inhibitorHandles (snd (acquireInhibitors w s))) =
     sessionConnection (inhibitorHandles (snd (acquireScreenSaverInhibitor w s)))"
  by (simp_all add: acquireInhibitors_handles)

lemma acquireInhibitors_idleFd:
  "idleFd (inhibitorHandles (snd (acquireInhibitors w s))) =
     idleFd (inhibitorHandles
       (snd (acquireLogin1Inhibitor w ''idle'' Ref_idleFd (snd (acquireScreenSaverInhibitor w s)))))"
  using login1_body_other_fd [of Ref_idleFd Ref_sleepFd w "''sleep''"]
  by (simp add: acquireInhibitors_handles)











lemma deliver_simps [simp]:
  "deliver [] s = s"
  "deliver (sg # sigs) s = deliver sigs (handleSignal sg s)"
  by (simp_all add: deliver_def)

lemma onAcquireRequested_idle [simp]: "\<not> acquireRequested s \<Longrightarrow> onAcquireRequested w s = s"
  by (simp add: onAcquireRequested_def)

lemma onReleaseRequested_idle [simp]: "\<not> releaseRequested s \<Longrightarrow> onReleaseRequested w s = s"
  by (simp add: onReleaseRequested_def)

lemma deliver_flags:
  "terminationRequested (deliver sigs s) =
     (terminationRequested s \<or> SIGTERM \<in> set sigs \<or> SIGINT \<in> set sigs)"
  "acquireRequested (deliver sigs s) = (acquireRequested s \<or> SIGUSR1 \<in> set sigs)"
  "releaseRequested (deliver sigs s) = (releaseRequested s \<or> SIGUSR2 \<in> set sigs)"
proof (induction sigs arbitrary: s)
  case Nil
  {
    case 1 show ?case by simp
  next
    case 2 show ?case by simp
  next
    case 3 show ?case by simp
  }
next
  case (Cons sg sigs)
  {
    case 1 show ?case by (cases sg) (auto simp: Cons.IH)
  next
    case 2 show ?case by (cases sg) (auto simp: Cons.IH)
  next
    case 3 show ?case by (cases sg) (auto simp: Cons.IH)
  }
qed

section \<open>The status file\<close>

lemma digit_char_in: "d < 10 \<Longrightarrow> digit_char d \<in> set ''0123456789''"
proof -
  assume "d < 10"
  then have "d < length ''0123456789''" by simp
  then show ?thesis unfolding digit_char_def by (rule nth_mem)
qed

lemma digits_chars: "set (digits n) \<subseteq> set ''0123456789''"
proof (induction n rule: digits.induct)
  case (1 n)
  show ?case
  proof (cases "n < 10")
    case True
    have "digits n = [digit_char n]" using True by (subst digits.simps) simp
    then show ?thesis using digit_char_in [OF True] by simp
  next
    case False
    have d: "digit_char (n mod 10) \<in> set ''0123456789''" by (rule digit_char_in) simp
    have "digits n = digits (n div 10) @ [digit_char (n mod 10)]"
      using False by (subst digits.simps) simp
    then show ?thesis using d 1 [OF False] by simp
  qed
qed

lemma to_string_chars: "set (to_string i) \<subseteq> set ''-0123456789''"
proof -
  have "set (digits (nat i)) \<subseteq> set ''-0123456789''"
    using digits_chars [of "nat i"] by (simp add: subset_iff)
  moreover have "set (digits (nat (- i))) \<subseteq> set ''-0123456789''"
    using digits_chars [of "nat (- i)"] by (simp add: subset_iff)
  ultimately show ?thesis by (simp add: to_string_def)
qed

lemma to_string_no_newline: "CHR 0x0A \<notin> set (to_string i)"
proof
  assume "CHR 0x0A \<in> set (to_string i)"
  then have "CHR 0x0A \<in> set ''-0123456789''" using to_string_chars [of i] by blast
  then show False by simp
qed

lemma to_string_bit: "to_string (if b then 1 else 0) = (if b then ''1'' else ''0'')"
  by (simp add: to_string_def digits.simps digit_char_def)

lemma sanitize_map:
  "sanitizeStatusMessage m = map (\<lambda>c. if c = CHR 0x0A \<or> c = CHR 0x0D then CHR '' '' else c) m"
  by (simp add: sanitizeStatusMessage_def std_replace_def)

lemma sanitize_single_line:
  "CHR 0x0A \<notin> set (sanitizeStatusMessage m)" "CHR 0x0D \<notin> set (sanitizeStatusMessage m)"
  by (auto simp: sanitize_map)

lemma statusLines_eq:
  "statusLines p a d m =
     [''pid='' @ to_string p,
      ''active='' @ (if a then ''1'' else ''0''),
      ''debug='' @ (if d then ''1'' else ''0''),
      ''message='' @ map (\<lambda>c. if c = CHR 0x0A \<or> c = CHR 0x0D then CHR '' '' else c) m]"
  by (simp add: statusLines_def to_string_bit sanitize_map)

lemma statusLines_single: "list_all (\<lambda>l. CHR 0x0A \<notin> set l) (statusLines p a d m)"
  using to_string_no_newline [of p] sanitize_single_line(1) [of m]
  by (simp add: statusLines_def to_string_bit)

lemma inserted_simps [simp]:
  "inserted None content = content"
  "inserted (Some k) content = take k content"
  by (simp_all add: inserted_def)

lemma updateStatusFile_file:
  "statusFile (updateStatusFile w s) =
     (if ofstream_is_open w (clock s)
      then Some (inserted (ofstream_fail w (clock s)) (statusText w s))
      else statusFile s)"
  by (simp add: updateStatusFile_def Let_def statusText_def)

lemma setStatusMessage_file:
  "statusFile (setStatusMessage w m s) =
     (if ofstream_is_open w (clock s)
      then Some (inserted (ofstream_fail w (clock s)) (statusText w (s\<lparr>lastQbusError := m\<rparr>)))
      else statusFile s)"
  by (simp add: setStatusMessage_def updateStatusFile_file statusText_def)

text \<open>
  Claim C8, as amended. For every message, when the status file opens and no insertion
  fails, what the status publisher leaves in the file is exactly four lines: \<open>pid=\<close> and
  the process id, \<open>active=\<close> and 0 or 1, \<open>debug=\<close> and 0 or 1, \<open>message=\<close> and the
  message with every line feed and carriage return replaced by a space. None of the four
  contains a line feed, so the message stays on its line. When the file does not open,
  nothing is written and the file keeps what it had; when the stream fails on the way, the
  file holds the leading characters of the four lines and nothing else. The same holds of
  a publication that sets no message (\<open>updateStatusFile\<close> alone).
\<close>

theorem C8_four_lines:
  "statusFile (setStatusMessage w message s) =
     (if \<not> ofstream_is_open w (clock s) then statusFile s
      else case ofstream_fail w (clock s) of
        None \<Rightarrow>
          Some (concat (map (\<lambda>l. l @ [CHR 0x0A])
            (statusLines (getpid w) (inhibitorsActive s) (debugLoggingEnabled s) message)))
      | Some k \<Rightarrow>
          Some (take k (concat (map (\<lambda>l. l @ [CHR 0x0A])
            (statusLines (getpid w) (inhibitorsActive s) (debugLoggingEnabled s) message)))))
   \<and> statusLines (getpid w) (inhibitorsActive s) (debugLoggingEnabled s) message =
       [''pid='' @ to_string (getpid w),
        ''active='' @ (if inhibitorsActive s then ''1'' else ''0''),
        ''debug='' @ (if debugLoggingEnabled s then ''1'' else ''0''),
        ''message='' @ map (\<lambda>c. if c = CHR 0x0A \<or> c = CHR 0x0D then CHR '' '' else c) message]
   \<and> list_all (\<lambda>l. CHR 0x0A \<notin> set l)
         (statusLines (getpid w) (inhibitorsActive s) (debugLoggingEnabled s) message)
   \<and> statusFile (updateStatusFile w s) =
     (if \<not> ofstream_is_open w (clock s) then statusFile s
      else case ofstream_fail w (clock s) of
        None \<Rightarrow>
          Some (concat (map (\<lambda>l. l @ [CHR 0x0A])
            (statusLines (getpid w) (inhibitorsActive s) (debugLoggingEnabled s) (lastQbusError s))))
      | Some k \<Rightarrow>
          Some (take k (concat (map (\<lambda>l. l @ [CHR 0x0A])
            (statusLines (getpid w) (inhibitorsActive s) (debugLoggingEnabled s) (lastQbusError s))))))"
proof (intro conjI)
  show "statusFile (setStatusMessage w message s) =
     (if \<not> ofstream_is_open w (clock s) then statusFile s
      else case ofstream_fail w (clock s) of
        None \<Rightarrow>
          Some (concat (map (\<lambda>l. l @ [CHR 0x0A])
            (statusLines (getpid w) (inhibitorsActive s) (debugLoggingEnabled s) message)))
      | Some k \<Rightarrow>
          Some (take k (concat (map (\<lambda>l. l @ [CHR 0x0A])
            (statusLines (getpid w) (inhibitorsActive s) (debugLoggingEnabled s) message)))))"
    by (simp add: setStatusMessage_file statusText_def split: option.split)
  show "statusLines (getpid w) (inhibitorsActive s) (debugLoggingEnabled s) message =
       [''pid='' @ to_string (getpid w),
        ''active='' @ (if inhibitorsActive s then ''1'' else ''0''),
        ''debug='' @ (if debugLoggingEnabled s then ''1'' else ''0''),
        ''message='' @ map (\<lambda>c. if c = CHR 0x0A \<or> c = CHR 0x0D then CHR '' '' else c) message]"
    by (rule statusLines_eq)
  show "list_all (\<lambda>l. CHR 0x0A \<notin> set l)
         (statusLines (getpid w) (inhibitorsActive s) (debugLoggingEnabled s) message)"
    by (rule statusLines_single)
  show "statusFile (updateStatusFile w s) =
     (if \<not> ofstream_is_open w (clock s) then statusFile s
      else case ofstream_fail w (clock s) of
        None \<Rightarrow>
          Some (concat (map (\<lambda>l. l @ [CHR 0x0A])
            (statusLines (getpid w) (inhibitorsActive s) (debugLoggingEnabled s) (lastQbusError s))))
      | Some k \<Rightarrow>
          Some (take k (concat (map (\<lambda>l. l @ [CHR 0x0A])
            (statusLines (getpid w) (inhibitorsActive s) (debugLoggingEnabled s) (lastQbusError s))))))"
    by (simp add: updateStatusFile_file statusText_def split: option.split)
qed

text \<open>The file written for a message of two lines.\<close>

theorem C8_four_lines_witness:
  "statusFile (setStatusMessage friendly two_line_message (initial_state None)) =
     Some ''pid=4242\<newline>active=0\<newline>debug=0\<newline>message=one  two\<newline>''"
  using C8_four_lines [of friendly two_line_message "initial_state None"]
  by (simp add: friendly_def initial_state_def two_line_message_def to_string_def digits.simps
      digit_char_def)

text \<open>
  As first stated (the publisher writes the four lines, whatever the message) the claim
  fails: where the file cannot be opened nothing is written, and the file that was not
  there is still not there; on a full file system the file is left empty.
\<close>

theorem C8_nothing_written_counterexample:
  "statusFile (setStatusMessage unwritable ''Inhibitors already inactive.'' (initial_state None))
     = None
   \<and> statusFile (setStatusMessage full_disk ''Inhibitors already inactive.'' (initial_state None))
     = Some []"
  by (simp add: setStatusMessage_file unwritable_def full_disk_def friendly_def initial_state_def)

lemma getlines_Nil [simp]: "getlines [] = []"
  by (subst getlines.simps) simp

lemma getlines_line:
  assumes "CHR 0x0A \<notin> set l"
  shows "getlines (l @ CHR 0x0A # rest) = l # getlines rest"
proof -
  have a: "\<forall>x\<in>set l. x \<noteq> CHR 0x0A" using assms by auto
  have t: "takeWhile (\<lambda>c. c \<noteq> CHR 0x0A) (l @ CHR 0x0A # rest) = l"
    using a by (simp add: takeWhile_tail)
  have d: "dropWhile (\<lambda>c. c \<noteq> CHR 0x0A) (l @ CHR 0x0A # rest) = CHR 0x0A # rest"
    using a by (simp add: dropWhile_append2)
  show ?thesis
    by (subst getlines.simps) (simp add: t d)
qed

lemma getlines_lines:
  "list_all (\<lambda>l. CHR 0x0A \<notin> set l) ls \<Longrightarrow>
   getlines (concat (map (\<lambda>l. l @ [CHR 0x0A]) ls)) = ls"
  by (induction ls) (simp_all add: getlines_line)

lemma getlines_statusText:
  "getlines (statusText w s) =
     statusLines (getpid w) (inhibitorsActive s) (debugLoggingEnabled s) (lastQbusError s)"
  unfolding statusText_def by (rule getlines_lines) (rule statusLines_single)

lemma readStatus_line_key:
  "CHR ''='' \<notin> set k \<Longrightarrow>
   readStatus_line (k @ CHR ''='' # v) a =
     (if k = ''active'' then (v = ''1'' \<or> v = ''true'' \<or> v = ''TRUE'') else a)"
proof -
  assume "CHR ''='' \<notin> set k"
  then have a: "\<forall>x\<in>set k. x \<noteq> CHR ''=''" by auto
  have t: "takeWhile (\<lambda>c. c \<noteq> CHR ''='') (k @ CHR ''='' # v) = k"
    using a by (simp add: takeWhile_tail)
  have d: "dropWhile (\<lambda>c. c \<noteq> CHR ''='') (k @ CHR ''='' # v) = CHR ''='' # v"
    using a by (simp add: dropWhile_append2)
  show ?thesis
    by (simp add: readStatus_line_def Let_def t d)
qed

lemma readStatus_statusText:
  "readStatus_active (Some (statusText w s)) = inhibitorsActive s"
proof -
  have 1: "readStatus_line (''pid='' @ to_string (getpid w)) a = a" for a
    using readStatus_line_key [of "''pid''" "to_string (getpid w)" a] by simp
  have 2: "readStatus_line (''active='' @ (if inhibitorsActive s then ''1'' else ''0'')) a
      = inhibitorsActive s" for a
    using readStatus_line_key [of "''active''" "if inhibitorsActive s then ''1'' else ''0''" a]
    by simp
  have 3: "readStatus_line (''debug='' @ v) a = a" for a v
    using readStatus_line_key [of "''debug''" v a] by simp
  have 4: "readStatus_line (''message='' @ v) a = a" for a v
    using readStatus_line_key [of "''message''" v a] by simp
  show ?thesis
    unfolding readStatus_active_def option.case getlines_statusText statusLines_eq
    by (simp only: fold_simps 1 2 3 4 id_apply comp_apply)
qed

lemma statusText_cong:
  "inhibitorsActive t = inhibitorsActive s \<Longrightarrow> debugLoggingEnabled t = debugLoggingEnabled s \<Longrightarrow>
   lastQbusError t = lastQbusError s \<Longrightarrow> statusText w t = statusText w s"
  by (simp add: statusText_def)

lemma in_step_cong:
  "in_step w s \<Longrightarrow> clock t = clock s \<Longrightarrow> statusFile t = statusFile s \<Longrightarrow>
   inhibitorsActive t = inhibitorsActive s \<Longrightarrow> debugLoggingEnabled t = debugLoggingEnabled s \<Longrightarrow>
   lastQbusError t = lastQbusError s \<Longrightarrow> in_step w t"
  using statusText_cong [of t s w] by (simp add: in_step_def)

lemma updateStatusFile_in_step: "in_step w (updateStatusFile w s)"
  using statusText_cong [of "updateStatusFile w s" s w]
  by (simp add: in_step_def updateStatusFile_file)

lemma setStatusMessage_in_step: "in_step w (setStatusMessage w m s)"
  unfolding setStatusMessage_def by (rule updateStatusFile_in_step)

lemma acquireInhibitors_in_step: "in_step w (snd (acquireInhibitors w s))"
  by (simp add: acquireInhibitors_def split_beta Let_def updateStatusFile_in_step
      setStatusMessage_in_step)

lemma beforeLoop_in_step: "in_step w (beforeLoop w s)"
  using in_step_cong [OF acquireInhibitors_in_step,
      of "logDebug ''Initial inhibitor acquisition failed.'' (snd (acquireInhibitors w s))" w s]
  by (simp add: beforeLoop_def split_beta acquireInhibitors_in_step)

lemma cleanupInhibitors_in_step: "in_step w (cleanupInhibitors w s)"
proof -
  define s6 where "s6 =
    drop_connection DBUS_BUS_SYSTEM (drop_connection DBUS_BUS_SESSION
      ((releaseLogin1Fd Ref_sleepFd ''sleep'' (releaseLogin1Fd Ref_idleFd ''idle''
          (releaseScreenSaverInhibitor w s)))\<lparr>inhibitorsActive := False\<rparr>))"
  have eq: "cleanupInhibitors w s =
      (updateStatusFile w s6)\<lparr>history := history (updateStatusFile w s6) @ [Cleanup]\<rparr>"
    by (simp add: cleanupInhibitors_def Let_def s6_def)
  show ?thesis
    unfolding eq by (rule in_step_cong [OF updateStatusFile_in_step [of w s6]]) simp_all
qed

lemma onAcquireRequested_in_step: "in_step w s \<Longrightarrow> in_step w (onAcquireRequested w s)"
  using in_step_cong [OF acquireInhibitors_in_step,
      of "logDebug ''Acquire request failed; inhibitors remain inactive.''
            (snd (acquireInhibitors w (s\<lparr>acquireRequested := False\<rparr>)))"
         w "s\<lparr>acquireRequested := False\<rparr>"]
  by (simp add: onAcquireRequested_def split_beta Let_def acquireInhibitors_in_step
      updateStatusFile_in_step)

lemma onReleaseRequested_in_step: "in_step w s \<Longrightarrow> in_step w (onReleaseRequested w s)"
  by (simp add: onReleaseRequested_def Let_def setStatusMessage_in_step)

lemma onTermination_in_step: "in_step w (onTermination w s)"
  by (simp add: onTermination_def Let_def setStatusMessage_in_step cleanupInhibitors_in_step)

lemma deliver_in_step: "in_step w s \<Longrightarrow> in_step w (deliver sigs s)"
  by (rule in_step_cong) simp_all

lemma whileLoop_in_step:
  "in_step w s \<Longrightarrow>
   (case whileLoop w passes s of Still_looping t \<Rightarrow> in_step w t | Left_loop t \<Rightarrow> in_step w t)"
proof (induction passes arbitrary: s)
  case Nil
  then show ?case by simp
next
  case (Cons p passes)
  obtain a b c where p: "p = (a, b, c)" by (cases p) auto
  show ?case
  proof (cases "terminationRequested (deliver a s)")
    case True
    then show ?thesis using Cons.prems by (simp add: p deliver_in_step)
  next
    case False
    have "in_step w (onReleaseRequested w (deliver c (onAcquireRequested w (deliver b (deliver a s)))))"
      by (intro onReleaseRequested_in_step deliver_in_step onAcquireRequested_in_step Cons.prems)
    from Cons.IH [OF this] show ?thesis using False by (simp add: p)
  qed
qed

lemma run_in_step: "in_step w (state_of (runInhibitorLoop w passes s))"
  using whileLoop_in_step [OF beforeLoop_in_step [of w s], of passes]
  by (simp add: runInhibitorLoop_def onTermination_in_step split: loop_exit.splits)

text \<open>
  Claim C7, as amended. Every transition (the first acquisition, an acquire or release
  request whatever its outcome, the cleanup at termination) ends by writing the status
  file after the state was updated. So at the end of every pass and after termination:
  if the latest opening of the status file succeeded and no insertion into it failed, the
  file is the four lines of the current state, and reading it back gives an \<open>active\<close>
  equal to \<open>inhibitorsActive\<close>. (When the file cannot be opened it keeps what it had,
  and when the stream fails it holds the leading characters of the four lines only.)
\<close>

theorem C7_file_matches_flag:
  assumes "ofstream_is_open w (clock (state_of (runInhibitorLoop w passes s)) - 1)"
    and "ofstream_fail w (clock (state_of (runInhibitorLoop w passes s)) - 1) = None"
  shows "statusFile (state_of (runInhibitorLoop w passes s))
           = Some (statusText w (state_of (runInhibitorLoop w passes s)))
       \<and> readStatus_active (statusFile (state_of (runInhibitorLoop w passes s)))
           = inhibitorsActive (state_of (runInhibitorLoop w passes s))"
proof -
  have "published w (state_of (runInhibitorLoop w passes s))"
    using run_in_step [of w passes s] assms by (simp add: in_step_def published_def)
  then show ?thesis
    by (simp add: published_def readStatus_statusText)
qed

text \<open>A run in which the file opens and is written in full: a release request, served.\<close>

theorem C7_file_matches_flag_witness:
  "statusFile (state_of (runInhibitorLoop friendly [([], [], [SIGUSR2])] (initial_state None)))
     = Some (statusText friendly
         (state_of (runInhibitorLoop friendly [([], [], [SIGUSR2])] (initial_state None))))
   \<and> readStatus_active
       (statusFile (state_of (runInhibitorLoop friendly [([], [], [SIGUSR2])] (initial_state None))))
     = inhibitorsActive
         (state_of (runInhibitorLoop friendly [([], [], [SIGUSR2])] (initial_state None)))"
proof -
  have "ofstream_is_open friendly n" and "ofstream_fail friendly n = None" for n
    by (simp_all add: friendly_def)
  then show ?thesis by (rule C7_file_matches_flag)
qed

lemma closed_updateStatusFile:
  "\<forall>n. \<not> ofstream_is_open w n \<Longrightarrow> statusFile (updateStatusFile w s) = statusFile s"
  by (simp add: updateStatusFile_file)

lemma closed_setStatusMessage:
  "\<forall>n. \<not> ofstream_is_open w n \<Longrightarrow> statusFile (setStatusMessage w m s) = statusFile s"
  by (simp add: setStatusMessage_file)

lemma closed_getConnection:
  "\<forall>n. \<not> ofstream_is_open w n \<Longrightarrow> statusFile (snd (getConnection w b l s)) = statusFile s"
  by (simp add: getConnection_def Let_def closed_setStatusMessage split: bus_result.splits)

lemma closed_screen:
  "\<forall>n. \<not> ofstream_is_open w n \<Longrightarrow>
   statusFile (snd (acquireScreenSaverInhibitor_body w s)) = statusFile s"
  by (simp add: acquireScreenSaverInhibitor_body_def Let_def
      split_beta closed_setStatusMessage closed_getConnection split: body_splits)

lemma closed_login1:
  "\<forall>n. \<not> ofstream_is_open w n \<Longrightarrow>
   statusFile (snd (acquireLogin1Inhibitor_body w what r s)) = statusFile s"
  by (simp add: acquireLogin1Inhibitor_body_def Let_def
      split_beta closed_setStatusMessage closed_getConnection split: body_splits)

lemma closed_beforeLoop:
  "\<forall>n. \<not> ofstream_is_open w n \<Longrightarrow> statusFile (beforeLoop w s) = statusFile s"
  by (simp add: beforeLoop_def acquireInhibitors_def Let_def split_beta closed_setStatusMessage
      closed_updateStatusFile closed_screen closed_login1)

text \<open>
  As first stated (the file always matches the flag) the claim fails when the file
  cannot be opened: all three leases are obtained and the flag is set, while the file
  still says \<open>active=0\<close>. It fails as well when the file opens and the write does not
  get through: the flag is set and the file is empty.
\<close>

theorem C7_stale_file_counterexample:
  "inhibitorsActive (state_of (runInhibitorLoop unwritable [] (initial_state (Some stale_file))))
   \<and> statusFile (state_of (runInhibitorLoop unwritable [] (initial_state (Some stale_file))))
       = Some ''pid=77\<newline>active=0\<newline>debug=0\<newline>message=NONE\<newline>''
   \<and> \<not> readStatus_active
         (statusFile (state_of (runInhibitorLoop unwritable [] (initial_state (Some stale_file)))))
   \<and> inhibitorsActive (state_of (runInhibitorLoop full_disk [] (initial_state None)))
   \<and> statusFile (state_of (runInhibitorLoop full_disk [] (initial_state None))) = Some []
   \<and> \<not> readStatus_active
         (statusFile (state_of (runInhibitorLoop full_disk [] (initial_state None))))"
proof -
  have c: "\<forall>n. \<not> ofstream_is_open unwritable n" by (simp add: unwritable_def)
  have a: "inhibitorsActive (beforeLoop unwritable (initial_state (Some stale_file)))"
    using grants_all [OF grants_unwritable, of "initial_state (Some stale_file)"]
    by (simp add: beforeLoop_def split_beta acquireInhibitors_returns_active)
  have f: "statusFile (beforeLoop unwritable (initial_state (Some stale_file))) = Some stale_file"
    using closed_beforeLoop [OF c, of "initial_state (Some stale_file)"]
    by (simp add: initial_state_def)
  have l: "getlines stale_file = [''pid=77'', ''active=0'', ''debug=0'', ''message=NONE'']"
    using getlines_lines [of "[''pid=77'', ''active=0'', ''debug=0'', ''message=NONE'']"]
    by (simp add: stale_file_def)
  have r: "\<not> readStatus_active (Some stale_file)"
    by (simp add: readStatus_active_def l readStatus_line_def)
  have a2: "inhibitorsActive (beforeLoop full_disk (initial_state None))"
    using grants_all [OF grants_full_disk, of "initial_state None"]
    by (simp add: beforeLoop_def split_beta acquireInhibitors_returns_active)
  have o: "ofstream_is_open full_disk n" "ofstream_fail full_disk n = Some 0" for n
    by (simp_all add: full_disk_def friendly_def)
  have f2: "statusFile (beforeLoop full_disk (initial_state None)) = Some []"
    using beforeLoop_in_step [of full_disk "initial_state None"] by (simp add: in_step_def o)
  have r2: "\<not> readStatus_active (Some [])"
    by (simp add: readStatus_active_def getlines.simps)
  show ?thesis
    using a f r a2 f2 r2 by (simp add: runInhibitorLoop_def stale_file_def)
qed
section \<open>Runs in the example worlds\<close>

lemma to_string_4242: "to_string 4242 = ''4242''"
  by (simp add: to_string_def digits.simps digit_char_def)

lemma friendly_start: "beforeLoop friendly (initial_state None) = holding"
  by (simp add: beforeLoop_def acquireInhibitors_def acquireScreenSaverInhibitor_def
      acquireScreenSaverInhibitor_body_def acquireLogin1Inhibitor_def acquireLogin1Inhibitor_body_def
      getConnection_def setStatusMessage_def updateStatusFile_def logDebug_def outside_call_def
      statusText_def statusLines_def to_string_4242 to_string_bit sanitizeStatusMessage_def
      std_replace_def friendly_def initial_state_def holding_def Let_def APP_NAME_def)


lemma holding_fields:
  "inhibitorHandles holding =
     \<lparr>sessionConnection = Some 1, systemConnection = Some 2, screenSaverCookie = 7,
      idleFd = 5, sleepFd = 7\<rparr>"
  "debugLoggingEnabled holding = False"
  "inhibitorsActive holding = True"
  "terminationRequested holding = False"
  "acquireRequested holding = False"
  "releaseRequested holding = False"
  "lastQbusError holding = ''Inhibitors active (screen saver, idle, sleep).''"
  "statusFile holding = Some (''pid=4242\<newline>active=1\<newline>debug=0\<newline>''
        @ ''message=Inhibitors active (screen saver, idle, sleep).\<newline>'')"
  "stdout holding = []"
  "clock holding = 9"
  by (simp_all add: holding_def)

lemma friendly_fields:
  "getpid friendly = 4242"
  "ofstream_is_open friendly n = True"
  "ofstream_fail friendly n = None"
  "dbus_message_new_method_call friendly n m = True"
  by (simp_all add: friendly_def)

lemma statusLines_text:
  "concat (map (\<lambda>l. l @ [CHR 0x0A]) (statusLines 4242 a d m)) =
     ''pid=4242\<newline>active='' @ (if a then ''1'' else ''0'') @ ''\<newline>debug=''
       @ (if d then ''1'' else ''0'') @ ''\<newline>message='' @ sanitizeStatusMessage m @ ''\<newline>''"
  by (simp add: statusLines_eq to_string_4242 sanitize_map)

lemma sanitize_active_message:
  "sanitizeStatusMessage ''Inhibitors active (screen saver, idle, sleep).''
     = ''Inhibitors active (screen saver, idle, sleep).''"
  by (simp add: sanitize_map)

lemma to_string_0_1: "to_string 0 = ''0''" "to_string 1 = ''1''"
  by (simp_all add: to_string_def digits.simps digit_char_def)

lemmas run_defs =
  beforeLoop_def acquireInhibitors_def acquireScreenSaverInhibitor_def
  acquireScreenSaverInhibitor_body_def acquireLogin1Inhibitor_def acquireLogin1Inhibitor_body_def
  getConnection_def setStatusMessage_def updateStatusFile_def logDebug_def outside_call_def
  statusText_def statusLines_def to_string_4242 to_string_0_1 sanitizeStatusMessage_def
  std_replace_def initial_state_def Let_def APP_NAME_def

lemma no_screen_saver_start: "beforeLoop no_screen_saver (initial_state None) = partly"
  by (simp add: run_defs no_screen_saver_def friendly_def partly_def)

lemma no_screen_saver_first: "acquireInhibitors no_screen_saver (initial_state None) = (False, partly)"
  by (simp add: run_defs no_screen_saver_def friendly_def partly_def)

lemma no_screen_saver_second:
  "onAcquireRequested no_screen_saver (partly\<lparr>acquireRequested := True\<rparr>) = partly_again"
  by (simp add: onAcquireRequested_def run_defs no_screen_saver_def friendly_def partly_def
      partly_again_def)


section \<open>Cleanup twice\<close>




section \<open>A release request\<close>



lemma cleanupInhibitors_clock_pos: "0 < clock (cleanupInhibitors w s)"
  by (simp add: cleanupInhibitors_def Let_def)




section \<open>An acquire request while active\<close>

lemma logDebug_stdout:
  "stdout (logDebug m s) = stdout s @ (if debugLoggingEnabled s then [''[debug] '' @ m] else [])"
  by (simp add: logDebug_def)

lemma updateStatusFile_stdout:
  "stdout (updateStatusFile w s) =
     stdout s @
       (if \<not> ofstream_is_open w (clock s) \<and> debugLoggingEnabled s
        then [''[debug] Unable to open status file for writing: /tmp/caffeine8.status''] else [])"
  by (simp add: updateStatusFile_def Let_def logDebug_def statusFilePath_def)

lemma onAcquireRequested_active:
  assumes "acquireRequested s" and "inhibitorsActive s"
  shows "onAcquireRequested w s =
      updateStatusFile w
        (logDebug ''Acquire request ignored; inhibitors already active.''
           (s\<lparr>acquireRequested := False\<rparr>))"
  using assms by (simp add: onAcquireRequested_def Let_def)

text \<open>
  Claim C3, as amended. An acquire request seen while the flag is true makes no outside
  call but the opening of the status file: handles, flag, trace and history are as
  before. The status file is written again (when it opens, and as far as the stream
  takes it) with the status message it had, which is left unchanged; the line "Acquire request ignored; inhibitors already
  active." goes to the debug log, and only when debug logging is enabled.
\<close>

theorem C3_acquire_while_active:
  assumes "acquireRequested s" and "inhibitorsActive s"
  shows "inhibitorHandles (onAcquireRequested w s) = inhibitorHandles s
       \<and> inhibitorsActive (onAcquireRequested w s)
       \<and> effects (onAcquireRequested w s) = effects s
       \<and> history (onAcquireRequested w s) = history s
       \<and> \<not> acquireRequested (onAcquireRequested w s)
       \<and> lastQbusError (onAcquireRequested w s) = lastQbusError s
       \<and> statusFile (onAcquireRequested w s) =
           (if ofstream_is_open w (clock s)
            then Some (inserted (ofstream_fail w (clock s))
                   (concat (map (\<lambda>l. l @ [CHR 0x0A])
                      (statusLines (getpid w) True (debugLoggingEnabled s) (lastQbusError s)))))
            else statusFile s)
       \<and> stdout (onAcquireRequested w s) =
           stdout s @
             (if debugLoggingEnabled s
              then ''[debug] Acquire request ignored; inhibitors already active.'' #
                (if ofstream_is_open w (clock s) then []
                 else [''[debug] Unable to open status file for writing: /tmp/caffeine8.status''])
              else [])"
  using assms(2)
  by (simp add: onAcquireRequested_active [OF assms] updateStatusFile_file statusText_def
      updateStatusFile_stdout logDebug_stdout)

text \<open>An acquire request on \<open>holding\<close>, with debug logging on.\<close>

theorem C3_acquire_while_active_witness:
  "stdout (onAcquireRequested friendly
       (holding\<lparr>acquireRequested := True, debugLoggingEnabled := True\<rparr>))
     = [''[debug] Acquire request ignored; inhibitors already active.'']
   \<and> inhibitorHandles (onAcquireRequested friendly
       (holding\<lparr>acquireRequested := True, debugLoggingEnabled := True\<rparr>))
     = inhibitorHandles holding
   \<and> statusFile (onAcquireRequested friendly
       (holding\<lparr>acquireRequested := True, debugLoggingEnabled := True\<rparr>))
     = Some (''pid=4242\<newline>active=1\<newline>debug=1\<newline>''
         @ ''message=Inhibitors active (screen saver, idle, sleep).\<newline>'')"
proof -
  define s where "s = holding\<lparr>acquireRequested := True, debugLoggingEnabled := True\<rparr>"
  have r: "acquireRequested s" and a: "inhibitorsActive s"
    by (simp_all add: s_def holding_fields)
  have v: "stdout s = []" "debugLoggingEnabled s" "inhibitorHandles s = inhibitorHandles holding"
    "lastQbusError s = ''Inhibitors active (screen saver, idle, sleep).''"
    by (simp_all add: s_def holding_fields)
  show ?thesis
    using C3_acquire_while_active [OF r a, of friendly]
    unfolding s_def [symmetric]
    by (simp add: v friendly_fields statusLines_text sanitize_active_message)
qed

text \<open>
  As first stated (an "already active" status message is produced) the claim fails with
  debug logging off: after the request nothing has been printed, and the status message,
  in memory and in the file, is still the one of the acquisition.
\<close>

theorem C3_no_message_counterexample:
  "stdout (state_of (runInhibitorLoop friendly [([], [SIGUSR1], [])] (initial_state None))) = []
   \<and> lastQbusError (state_of (runInhibitorLoop friendly [([], [SIGUSR1], [])] (initial_state None)))
       = ''Inhibitors active (screen saver, idle, sleep).''
   \<and> statusFile (state_of (runInhibitorLoop friendly [([], [SIGUSR1], [])] (initial_state None)))
       = Some (''pid=4242\<newline>active=1\<newline>debug=0\<newline>''
           @ ''message=Inhibitors active (screen saver, idle, sleep).\<newline>'')"
proof -
  define s where "s = holding\<lparr>acquireRequested := True\<rparr>"
  have r: "acquireRequested s" and a: "inhibitorsActive s"
    by (simp_all add: s_def holding_fields)
  have v: "stdout s = []" "\<not> debugLoggingEnabled s"
    "lastQbusError s = ''Inhibitors active (screen saver, idle, sleep).''"
    by (simp_all add: s_def holding_fields)
  have "whileLoop friendly [([], [SIGUSR1], [])] holding
      = Still_looping (onReleaseRequested friendly (onAcquireRequested friendly s))"
    by (simp add: holding_fields s_def)
  moreover have "\<not> releaseRequested (onAcquireRequested friendly s)"
    by (simp add: onAcquireRequested_active [OF r a]) (simp add: s_def holding_fields)
  ultimately have run:
    "state_of (runInhibitorLoop friendly [([], [SIGUSR1], [])] (initial_state None))
      = onAcquireRequested friendly s"
    by (simp add: runInhibitorLoop_def friendly_start)
  show ?thesis
    unfolding run onAcquireRequested_active [OF r a]
    by (simp add: updateStatusFile_file updateStatusFile_stdout logDebug_stdout statusText_def
        v a friendly_fields statusLines_text sanitize_active_message)
qed

section \<open>Termination\<close>












lemma request_flags_kept:
  "terminationRequested (onAcquireRequested w s) = terminationRequested s"
  "terminationRequested (onReleaseRequested w s) = terminationRequested s"
  by (simp_all add: onAcquireRequested_def onReleaseRequested_def split_beta Let_def)


text \<open>Without such a request the run ends with the process in the loop.\<close>

lemma whileLoop_stays:
  "\<not> termination_seen passes \<Longrightarrow> \<not> (terminationRequested s \<and> passes \<noteq> []) \<Longrightarrow>
   whileLoop w passes s = Still_looping (last_state (whileLoop w passes s))"
proof (induction passes arbitrary: s)
  case Nil
  then show ?case by simp
next
  case (Cons p passes)
  obtain a b c where p: "p = (a, b, c)" by (cases p) auto
  define s3 where
    "s3 = onReleaseRequested w (deliver c (onAcquireRequested w (deliver b (deliver a s))))"
  have n: "\<not> terminationRequested (deliver a s)"
    using Cons.prems by (simp add: p deliver_flags terminating_def)
  have t3: "terminationRequested s3 = terminating (b @ c)"
    using n by (auto simp: s3_def request_flags_kept deliver_flags terminating_def)
  have "whileLoop w passes s3 = Still_looping (last_state (whileLoop w passes s3))"
    using Cons.prems by (intro Cons.IH) (auto simp: p t3)
  moreover have "whileLoop w (p # passes) s = whileLoop w passes s3"
    using n by (simp add: p s3_def)
  ultimately show ?case by simp
qed


section \<open>A partial acquisition\<close>

lemma quiet_signals:
  "list_all (\<lambda>sg. sg = SIGUSR2 \<or> sg = SIGOTHER) sigs \<Longrightarrow>
   SIGTERM \<notin> set sigs \<and> SIGINT \<notin> set sigs \<and> SIGUSR1 \<notin> set sigs"
  by (auto simp: list_all_iff)

lemma quiet_pass:
  assumes "resting s" and "quiet (a, b, c)"
  shows "\<not> terminationRequested (deliver a s)"
    and "resting (onReleaseRequested w (deliver c (onAcquireRequested w (deliver b (deliver a s)))))"
    and "inhibitorHandles (onReleaseRequested w (deliver c (onAcquireRequested w (deliver b (deliver a s)))))
          = inhibitorHandles s"
    and "effects (onReleaseRequested w (deliver c (onAcquireRequested w (deliver b (deliver a s)))))
          = effects s"
    and "history (onReleaseRequested w (deliver c (onAcquireRequested w (deliver b (deliver a s)))))
          = history s"
proof -
  have qa: "SIGTERM \<notin> set a \<and> SIGINT \<notin> set a \<and> SIGUSR1 \<notin> set a"
    and qb: "SIGTERM \<notin> set b \<and> SIGINT \<notin> set b \<and> SIGUSR1 \<notin> set b"
    and qc: "SIGTERM \<notin> set c \<and> SIGINT \<notin> set c \<and> SIGUSR1 \<notin> set c"
    using assms(2) by (simp_all add: quiet_def quiet_signals)
  define s1 where "s1 = deliver b (deliver a s)"
  have s1: "\<not> acquireRequested s1" "\<not> terminationRequested s1" "\<not> inhibitorsActive s1"
    "inhibitorHandles s1 = inhibitorHandles s" "effects s1 = effects s" "history s1 = history s"
    using assms(1) qa qb by (simp_all add: s1_def deliver_flags resting_def)
  have a1: "onAcquireRequested w s1 = s1" using s1 by simp
  define s2 where "s2 = deliver c s1"
  have s2: "\<not> acquireRequested s2" "\<not> terminationRequested s2" "\<not> inhibitorsActive s2"
    "inhibitorHandles s2 = inhibitorHandles s" "effects s2 = effects s" "history s2 = history s"
    using s1 qc by (simp_all add: s2_def deliver_flags)
  have r: "resting (onReleaseRequested w s2) \<and> inhibitorHandles (onReleaseRequested w s2) = inhibitorHandles s
      \<and> effects (onReleaseRequested w s2) = effects s \<and> history (onReleaseRequested w s2) = history s"
    using s2 by (simp add: onReleaseRequested_def Let_def resting_def)
  show "\<not> terminationRequested (deliver a s)"
    using assms(1) qa by (simp add: deliver_flags resting_def)
  show "resting (onReleaseRequested w (deliver c (onAcquireRequested w (deliver b (deliver a s)))))"
    and "inhibitorHandles (onReleaseRequested w (deliver c (onAcquireRequested w (deliver b (deliver a s)))))
          = inhibitorHandles s"
    and "effects (onReleaseRequested w (deliver c (onAcquireRequested w (deliver b (deliver a s)))))
          = effects s"
    and "history (onReleaseRequested w (deliver c (onAcquireRequested w (deliver b (deliver a s)))))
          = history s"
    using r a1 by (simp_all add: s1_def [symmetric] s2_def [symmetric])
qed

lemma quiet_loop:
  "resting s \<Longrightarrow> list_all quiet passes \<Longrightarrow>
   \<exists>t. whileLoop w passes s = Still_looping t \<and> resting t
      \<and> inhibitorHandles t = inhibitorHandles s \<and> effects t = effects s \<and> history t = history s"
proof (induction passes arbitrary: s)
  case Nil
  then show ?case by simp
next
  case (Cons p passes)
  obtain a b c where p: "p = (a, b, c)" by (cases p) auto
  from Cons.prems have q: "quiet (a, b, c)" and qs: "list_all quiet passes"
    by (simp_all add: p)
  note first = quiet_pass(1) [OF Cons.prems(1) q]
  note step = quiet_pass(2-5) [OF Cons.prems(1) q, of w]
  obtain t where "whileLoop w passes
      (onReleaseRequested w (deliver c (onAcquireRequested w (deliver b (deliver a s))))) = Still_looping t"
    "resting t"
    "inhibitorHandles t = inhibitorHandles s" "effects t = effects s" "history t = history s"
    using Cons.IH [OF step(1) qs] step(2,3,4) by auto
  then show ?case using first by (simp add: p)
qed

lemma screen_obtained:
  "fst (acquireScreenSaverInhibitor_body w s) \<Longrightarrow>
   \<exists>n rest. dbus_send_with_reply w n ScreenSaver_Inhibit
       [STRING APP_NAME, STRING ''caffeine8 prevents automatic locking'']
     = SendReply (UINT32 (screenSaverCookie
         (inhibitorHandles (snd (acquireScreenSaverInhibitor_body w s)))) # rest)"
  by (auto simp: acquireScreenSaverInhibitor_body_def Let_def split_beta
      split: body_splits if_splits)

lemma login1_obtained:
  "fst (acquireLogin1Inhibitor_body w what r s) \<Longrightarrow>
   \<exists>n rest. dbus_send_with_reply w n Login1_Inhibit
       [STRING what, STRING APP_NAME, STRING ''caffeine8 is preventing automatic sleep'',
        STRING ''block'']
     = SendReply (UNIX_FD (get_fd r
         (inhibitorHandles (snd (acquireLogin1Inhibitor_body w what r s)))) # rest)"
  by (cases r; auto simp: acquireLogin1Inhibitor_body_def Let_def split_beta
      split: body_splits if_splits)

lemma acquireInhibitors_sleepFd:
  "sleepFd (inhibitorHandles (snd (acquireInhibitors w s))) =
     get_fd Ref_sleepFd (inhibitorHandles
       (snd (acquireLogin1Inhibitor_body w ''sleep'' Ref_sleepFd
         (snd (acquireLogin1Inhibitor w ''idle'' Ref_idleFd (snd (acquireScreenSaverInhibitor w s)))))))"
  by (simp add: acquireInhibitors_handles)

lemma acquireInhibitors_idleFd':
  "idleFd (inhibitorHandles (snd (acquireInhibitors w s))) =
     get_fd Ref_idleFd (inhibitorHandles
       (snd (acquireLogin1Inhibitor_body w ''idle'' Ref_idleFd (snd (acquireScreenSaverInhibitor w s)))))"
  by (simp add: acquireInhibitors_idleFd)

lemma acquireInhibitors_no_release:
  "list_all (\<lambda>e. \<not> release_effect e)
     (drop (length (effects s)) (effects (snd (acquireInhibitors w s))))"
proof -
  obtain t1 t2 t3 where e: "effects (snd (acquireInhibitors w s)) = effects s @ t1 @ t2 @ t3"
    and a: "attempt_of screen_effect t1" "attempt_of (login1_effect ''idle'') t2"
      "attempt_of (login1_effect ''sleep'') t3"
    using acquireInhibitors_effects [of w s] by blast
  have 1: "screen_effect x \<Longrightarrow> \<not> release_effect x" for x by (cases x) auto
  have 2: "login1_effect what x \<Longrightarrow> \<not> release_effect x" for what x by (cases x) auto
  show ?thesis
    using a 1 2 by (auto simp: e attempt_of_def list_all_iff)
qed

text \<open>
  Claim C2, as amended. When a full attempt does not obtain all three leases, the flag is
  false after \<open>acquireInhibitors\<close>, and each handle that was obtained is the one the
  service replied with: the attempt itself made no releasing call, and the handles stay
  as they are, with no further outside call on them, through every later pass in which
  neither an acquire request nor a termination request arrives (release requests change
  nothing while the flag is false).
\<close>

theorem C2_partial_acquisition_kept:
  assumes "\<not> fst (acquireInhibitors w s)"
    and "\<not> acquireRequested s" and "\<not> terminationRequested s"
    and "list_all quiet passes"
  shows "\<not> inhibitorsActive (snd (acquireInhibitors w s))
       \<and> (fst (acquireScreenSaverInhibitor w s) \<longrightarrow>
            (\<exists>n rest. dbus_send_with_reply w n ScreenSaver_Inhibit
                 [STRING APP_NAME, STRING ''caffeine8 prevents automatic locking'']
               = SendReply (UINT32 (screenSaverCookie
                   (inhibitorHandles (snd (acquireInhibitors w s)))) # rest)))
       \<and> (fst (acquireLogin1Inhibitor w ''idle'' Ref_idleFd (snd (acquireScreenSaverInhibitor w s))) \<longrightarrow>
            (\<exists>n rest. dbus_send_with_reply w n Login1_Inhibit
                 [STRING ''idle'', STRING APP_NAME,
                  STRING ''caffeine8 is preventing automatic sleep'', STRING ''block'']
               = SendReply (UNIX_FD (idleFd (inhibitorHandles (snd (acquireInhibitors w s)))) # rest)))
       \<and> (fst (acquireLogin1Inhibitor w ''sleep'' Ref_sleepFd
              (snd (acquireLogin1Inhibitor w ''idle'' Ref_idleFd
                 (snd (acquireScreenSaverInhibitor w s))))) \<longrightarrow>
            (\<exists>n rest. dbus_send_with_reply w n Login1_Inhibit
                 [STRING ''sleep'', STRING APP_NAME,
                  STRING ''caffeine8 is preventing automatic sleep'', STRING ''block'']
               = SendReply (UNIX_FD (sleepFd (inhibitorHandles (snd (acquireInhibitors w s)))) # rest)))
       \<and> list_all (\<lambda>e. \<not> release_effect e)
            (drop (length (effects s)) (effects (snd (acquireInhibitors w s))))
       \<and> (\<exists>t. whileLoop w passes (logDebug m (snd (acquireInhibitors w s))) = Still_looping t
              \<and> inhibitorHandles t = inhibitorHandles (snd (acquireInhibitors w s))
              \<and> effects t = effects (snd (acquireInhibitors w s))
              \<and> history t = history (snd (acquireInhibitors w s))
              \<and> \<not> inhibitorsActive t)"
proof -
  have i: "\<not> inhibitorsActive (snd (acquireInhibitors w s))"
    using assms(1) by (simp add: acquireInhibitors_returns_active)
  have r: "resting (logDebug m (snd (acquireInhibitors w s)))"
    using i assms(2,3) by (simp add: resting_def)
  obtain t where t: "whileLoop w passes (logDebug m (snd (acquireInhibitors w s))) = Still_looping t"
    "resting t" "inhibitorHandles t = inhibitorHandles (snd (acquireInhibitors w s))"
    "effects t = effects (snd (acquireInhibitors w s))"
    "history t = history (snd (acquireInhibitors w s))"
    using quiet_loop [OF r assms(4), of w] by auto
  have c: "fst (acquireScreenSaverInhibitor w s) \<longrightarrow>
      (\<exists>n rest. dbus_send_with_reply w n ScreenSaver_Inhibit
           [STRING APP_NAME, STRING ''caffeine8 prevents automatic locking'']
         = SendReply (UINT32 (screenSaverCookie (inhibitorHandles (snd (acquireInhibitors w s)))) # rest))"
    using screen_obtained [of w s] by (simp add: acquireInhibitors_cookie)
  have f1: "fst (acquireLogin1Inhibitor w ''idle'' Ref_idleFd (snd (acquireScreenSaverInhibitor w s))) \<longrightarrow>
      (\<exists>n rest. dbus_send_with_reply w n Login1_Inhibit
           [STRING ''idle'', STRING APP_NAME,
            STRING ''caffeine8 is preventing automatic sleep'', STRING ''block'']
         = SendReply (UNIX_FD (idleFd (inhibitorHandles (snd (acquireInhibitors w s)))) # rest))"
    using login1_obtained [of w "''idle''" Ref_idleFd "snd (acquireScreenSaverInhibitor w s)"]
    by (simp add: acquireInhibitors_idleFd')
  have f2: "fst (acquireLogin1Inhibitor w ''sleep'' Ref_sleepFd
        (snd (acquireLogin1Inhibitor w ''idle'' Ref_idleFd (snd (acquireScreenSaverInhibitor w s))))) \<longrightarrow>
      (\<exists>n rest. dbus_send_with_reply w n Login1_Inhibit
           [STRING ''sleep'', STRING APP_NAME,
            STRING ''caffeine8 is preventing automatic sleep'', STRING ''block'']
         = SendReply (UNIX_FD (sleepFd (inhibitorHandles (snd (acquireInhibitors w s)))) # rest))"
    using login1_obtained [of w "''sleep''" Ref_sleepFd
        "snd (acquireLogin1Inhibitor w ''idle'' Ref_idleFd (snd (acquireScreenSaverInhibitor w s)))"]
    by (simp add: acquireInhibitors_sleepFd)
  from t(2) have "\<not> inhibitorsActive t" by (simp add: resting_def)
  with i c f1 f2 t acquireInhibitors_no_release [of s w] show ?thesis by blast
qed

text \<open>A partial acquisition followed by a release request.\<close>

theorem C2_partial_acquisition_kept_witness:
  "\<not> inhibitorsActive partly
   \<and> (\<exists>t. whileLoop no_screen_saver [([], [], [SIGUSR2])]
             (logDebug ''Initial inhibitor acquisition failed.'' partly) = Still_looping t
          \<and> inhibitorHandles t = inhibitorHandles partly
          \<and> effects t = effects partly
          \<and> history t = history partly
          \<and> \<not> inhibitorsActive t)"
proof -
  have h: "\<not> fst (acquireInhibitors no_screen_saver (initial_state None))"
    "\<not> acquireRequested (initial_state None)" "\<not> terminationRequested (initial_state None)"
    "list_all quiet [([], [], [SIGUSR2])]"
    by (simp_all add: no_screen_saver_first quiet_def) (simp_all add: initial_state_def)
  show ?thesis
    using C2_partial_acquisition_kept [OF h, of "''Initial inhibitor acquisition failed.''"]
    by (simp add: no_screen_saver_first)
qed

text \<open>
  As first stated (kept until the next cleanup) the claim fails at the next acquire
  request: the descriptors 6 and 8 of the first attempt are overwritten by 14 and 16,
  with no cleanup in between and without ever being closed.
\<close>

theorem C2_overwritten_counterexample:
  "idleFd (inhibitorHandles (state_of (runInhibitorLoop no_screen_saver [] (initial_state None)))) = 6
   \<and> sleepFd (inhibitorHandles (state_of (runInhibitorLoop no_screen_saver [] (initial_state None)))) = 8
   \<and> idleFd (inhibitorHandles
        (state_of (runInhibitorLoop no_screen_saver [([], [SIGUSR1], [])] (initial_state None)))) = 14
   \<and> sleepFd (inhibitorHandles
        (state_of (runInhibitorLoop no_screen_saver [([], [SIGUSR1], [])] (initial_state None)))) = 16
   \<and> Cleanup \<notin> set (history
        (state_of (runInhibitorLoop no_screen_saver [([], [SIGUSR1], [])] (initial_state None))))
   \<and> Close 6 \<notin> set (effects
        (state_of (runInhibitorLoop no_screen_saver [([], [SIGUSR1], [])] (initial_state None))))
   \<and> Close 8 \<notin> set (effects
        (state_of (runInhibitorLoop no_screen_saver [([], [SIGUSR1], [])] (initial_state None))))"
proof -
  have 0: "state_of (runInhibitorLoop no_screen_saver [] (initial_state None)) = partly"
    by (simp add: runInhibitorLoop_def no_screen_saver_start)
  have t: "\<not> terminationRequested partly" "\<not> releaseRequested partly_again"
    by (simp_all add: partly_def partly_again_def)
  have 1: "state_of (runInhibitorLoop no_screen_saver [([], [SIGUSR1], [])] (initial_state None))
      = partly_again"
    using t by (simp add: runInhibitorLoop_def no_screen_saver_start no_screen_saver_second)
  show ?thesis
    unfolding 0 1 by (simp add: partly_def partly_again_def)
qed

section \<open>The debug flag\<close>

lemma files_agree_written [simp]:
  "files_agree w d1
     (Some (inserted f (concat (map (\<lambda>l. l @ [CHR 0x0A]) (statusLines (getpid w) a d1 m)))))
     d2 (Some (inserted f (concat (map (\<lambda>l. l @ [CHR 0x0A]) (statusLines (getpid w) a d2 m)))))"
  unfolding files_agree_def by blast

lemma same_logDebug:
  "same_but_debug w s t \<Longrightarrow> same_but_debug w (logDebug m s) (logDebug m' t)"
  by (simp add: same_but_debug_def)

lemma same_outside_call:
  "same_but_debug w s t \<Longrightarrow> same_but_debug w (outside_call e s) (outside_call e t)"
  by (simp add: same_but_debug_def)

lemma same_updateStatusFile:
  "same_but_debug w s t \<Longrightarrow> same_but_debug w (updateStatusFile w s) (updateStatusFile w t)"
  by (simp add: same_but_debug_def updateStatusFile_file statusText_def)

lemma same_setStatusMessage:
  "same_but_debug w s t \<Longrightarrow> same_but_debug w (setStatusMessage w m s) (setStatusMessage w m t)"
  by (simp add: same_but_debug_def setStatusMessage_file statusText_def)

lemma same_getConnection:
  assumes "same_but_debug w s t"
  shows "fst (getConnection w b l s) = fst (getConnection w b l t)"
    and "same_but_debug w (snd (getConnection w b l s)) (snd (getConnection w b l t))"
proof -
  have c: "clock s = clock t" using assms by (simp add: same_but_debug_def)
  show "fst (getConnection w b l s) = fst (getConnection w b l t)"
    by (simp add: getConnection_def Let_def c split: bus_result.splits)
  show "same_but_debug w (snd (getConnection w b l s)) (snd (getConnection w b l t))"
    using assms
    by (simp add: getConnection_def Let_def c same_setStatusMessage same_outside_call
        split: bus_result.splits)
qed

lemma same_fields:
  assumes "same_but_debug w s t"
  shows "inhibitorHandles s = inhibitorHandles t" "inhibitorsActive s = inhibitorsActive t"
    "terminationRequested s = terminationRequested t" "acquireRequested s = acquireRequested t"
    "releaseRequested s = releaseRequested t" "lastQbusError s = lastQbusError t"
    "effects s = effects t" "history s = history t" "clock s = clock t"
  using assms by (simp_all add: same_but_debug_def)

lemma same_handles_update:
  "same_but_debug w s t \<Longrightarrow> h1 = h2 \<Longrightarrow>
   same_but_debug w (s\<lparr>inhibitorHandles := h1\<rparr>) (t\<lparr>inhibitorHandles := h2\<rparr>)"
  by (simp add: same_but_debug_def)

lemma same_history_update:
  "same_but_debug w s t \<Longrightarrow> h1 = h2 \<Longrightarrow>
   same_but_debug w (s\<lparr>history := h1\<rparr>) (t\<lparr>history := h2\<rparr>)"
  by (simp add: same_but_debug_def)

lemma same_flag_update:
  "same_but_debug w s t \<Longrightarrow> same_but_debug w (s\<lparr>inhibitorsActive := b\<rparr>) (t\<lparr>inhibitorsActive := b\<rparr>)"
  "same_but_debug w s t \<Longrightarrow> same_but_debug w (s\<lparr>acquireRequested := b\<rparr>) (t\<lparr>acquireRequested := b\<rparr>)"
  "same_but_debug w s t \<Longrightarrow> same_but_debug w (s\<lparr>releaseRequested := b\<rparr>) (t\<lparr>releaseRequested := b\<rparr>)"
  "same_but_debug w s t \<Longrightarrow>
   same_but_debug w (s\<lparr>terminationRequested := b\<rparr>) (t\<lparr>terminationRequested := b\<rparr>)"
  by (simp_all add: same_but_debug_def)

lemmas same_rules =
  same_logDebug same_outside_call same_updateStatusFile same_setStatusMessage
  same_handles_update same_history_update same_flag_update

lemma screen_body_steps:
  "acquireScreenSaverInhibitor_body w s =
     (case fst (connection_step w DBUS_BUS_SESSION ''session'' s) of
        None \<Rightarrow> (False, snd (connection_step w DBUS_BUS_SESSION ''session'' s))
      | Some c \<Rightarrow>
          if \<not> dbus_message_new_method_call w
                 (clock (snd (connection_step w DBUS_BUS_SESSION ''session'' s))) ScreenSaver_Inhibit
          then (False,
            setStatusMessage w ''Failed to create DBus message for ScreenSaver.Inhibit.''
              (outside_call (New_method_call ScreenSaver_Inhibit)
                 (snd (connection_step w DBUS_BUS_SESSION ''session'' s))))
          else screen_reply_step w
            (dbus_send_with_reply w
               (Suc (clock (snd (connection_step w DBUS_BUS_SESSION ''session'' s)))) ScreenSaver_Inhibit
               [STRING APP_NAME, STRING ''caffeine8 prevents automatic locking''])
            (outside_call
               (Send_and_block c ScreenSaver_Inhibit
                  [STRING APP_NAME, STRING ''caffeine8 prevents automatic locking''])
               (outside_call (New_method_call ScreenSaver_Inhibit)
                  (snd (connection_step w DBUS_BUS_SESSION ''session'' s)))))"
proof (cases "sessionConnection (inhibitorHandles s)")
  case None
  then show ?thesis
    by (cases "fst (getConnection w DBUS_BUS_SESSION ''session'' s)")
       (simp_all add: acquireScreenSaverInhibitor_body_def connection_step_def
          screen_reply_step_def Let_def split_beta)
next
  case (Some c)
  then show ?thesis
    by (simp add: acquireScreenSaverInhibitor_body_def connection_step_def
        screen_reply_step_def Let_def)
qed

lemma login1_body_steps:
  "acquireLogin1Inhibitor_body w what fdOut s =
     (case fst (connection_step w DBUS_BUS_SYSTEM ''system'' s) of
        None \<Rightarrow> (False, snd (connection_step w DBUS_BUS_SYSTEM ''system'' s))
      | Some c \<Rightarrow>
          if \<not> dbus_message_new_method_call w
                 (clock (snd (connection_step w DBUS_BUS_SYSTEM ''system'' s))) Login1_Inhibit
          then (False,
            setStatusMessage w (''Failed to create DBus message for login1.Inhibit '' @ what @ ''.'')
              (outside_call (New_method_call Login1_Inhibit)
                 (snd (connection_step w DBUS_BUS_SYSTEM ''system'' s))))
          else login1_reply_step w what fdOut
            (dbus_send_with_reply w
               (Suc (clock (snd (connection_step w DBUS_BUS_SYSTEM ''system'' s)))) Login1_Inhibit
               [STRING what, STRING APP_NAME, STRING ''caffeine8 is preventing automatic sleep'',
                STRING ''block''])
            (outside_call
               (Send_and_block c Login1_Inhibit
                  [STRING what, STRING APP_NAME, STRING ''caffeine8 is preventing automatic sleep'',
                   STRING ''block''])
               (outside_call (New_method_call Login1_Inhibit)
                  (snd (connection_step w DBUS_BUS_SYSTEM ''system'' s)))))"
proof (cases "systemConnection (inhibitorHandles s)")
  case None
  then show ?thesis
    by (cases "fst (getConnection w DBUS_BUS_SYSTEM ''system'' s)")
       (simp_all add: acquireLogin1Inhibitor_body_def connection_step_def
          login1_reply_step_def Let_def split_beta)
next
  case (Some c)
  then show ?thesis
    by (simp add: acquireLogin1Inhibitor_body_def connection_step_def
        login1_reply_step_def Let_def)
qed

lemma same_connection_step:
  assumes "same_but_debug w s t"
  shows "fst (connection_step w b l s) = fst (connection_step w b l t)"
    and "same_but_debug w (snd (connection_step w b l s)) (snd (connection_step w b l t))"
proof -
  note f = same_fields [OF assms]
  note g = same_getConnection [OF assms, of b l]
  have h: "inhibitorHandles (snd (getConnection w b l s)) = inhibitorHandles (snd (getConnection w b l t))"
    using f by simp
  show "fst (connection_step w b l s) = fst (connection_step w b l t)"
    using g(1) by (cases b) (simp_all add: connection_step_def f split_beta split: option.splits)
  show "same_but_debug w (snd (connection_step w b l s)) (snd (connection_step w b l t))"
    using g assms h
    by (cases b) (simp_all add: connection_step_def f split_beta same_handles_update
        split: option.splits)
qed

lemma same_screen_reply_step:
  assumes "same_but_debug w s t"
  shows "fst (screen_reply_step w reply s) = fst (screen_reply_step w reply t)"
    and "same_but_debug w (snd (screen_reply_step w reply s)) (snd (screen_reply_step w reply t))"
proof -
  note f = same_fields [OF assms]
  show "fst (screen_reply_step w reply s) = fst (screen_reply_step w reply t)"
    by (simp add: screen_reply_step_def split: send_result.splits list.splits dbus_arg.splits)
  show "same_but_debug w (snd (screen_reply_step w reply s)) (snd (screen_reply_step w reply t))"
    using assms
    by (simp add: screen_reply_step_def f same_rules
        split: send_result.splits list.splits dbus_arg.splits)
qed

lemma same_login1_reply_step:
  assumes "same_but_debug w s t"
  shows "fst (login1_reply_step w what r reply s) = fst (login1_reply_step w what r reply t)"
    and "same_but_debug w (snd (login1_reply_step w what r reply s))
           (snd (login1_reply_step w what r reply t))"
proof -
  note f = same_fields [OF assms]
  show "fst (login1_reply_step w what r reply s) = fst (login1_reply_step w what r reply t)"
    by (simp add: login1_reply_step_def split: send_result.splits list.splits dbus_arg.splits)
  show "same_but_debug w (snd (login1_reply_step w what r reply s))
           (snd (login1_reply_step w what r reply t))"
    using assms
    by (simp add: login1_reply_step_def f same_rules
        split: send_result.splits list.splits dbus_arg.splits)
qed

lemma same_screen_body:
  assumes "same_but_debug w s t"
  shows "fst (acquireScreenSaverInhibitor_body w s) = fst (acquireScreenSaverInhibitor_body w t)"
    and "same_but_debug w (snd (acquireScreenSaverInhibitor_body w s))
           (snd (acquireScreenSaverInhibitor_body w t))"
proof -
  define s1 where "s1 = snd (connection_step w DBUS_BUS_SESSION ''session'' s)"
  define t1 where "t1 = snd (connection_step w DBUS_BUS_SESSION ''session'' t)"
  note c = same_connection_step [OF assms, of DBUS_BUS_SESSION "''session''"]
  have r1: "same_but_debug w s1 t1" using c(2) by (simp add: s1_def t1_def)
  have k: "clock s1 = clock t1" using same_fields(9) [OF r1] .
  have r2: "same_but_debug w (outside_call e s1) (outside_call e t1)" for e
    using r1 by (rule same_outside_call)
  have r3: "same_but_debug w (outside_call e' (outside_call e s1)) (outside_call e' (outside_call e t1))"
    for e e'
    using r2 by (rule same_outside_call)
  note rep = same_screen_reply_step [OF r3]
  show "fst (acquireScreenSaverInhibitor_body w s) = fst (acquireScreenSaverInhibitor_body w t)"
    using rep(1)
    by (simp add: screen_body_steps c(1) s1_def [symmetric] t1_def [symmetric] k
        split: option.splits)
  show "same_but_debug w (snd (acquireScreenSaverInhibitor_body w s))
           (snd (acquireScreenSaverInhibitor_body w t))"
    using rep(2) r1 r2
    by (simp add: screen_body_steps c(1) s1_def [symmetric] t1_def [symmetric] k
        same_setStatusMessage split: option.splits)
qed

lemma same_login1_body:
  assumes "same_but_debug w s t"
  shows "fst (acquireLogin1Inhibitor_body w what r s) = fst (acquireLogin1Inhibitor_body w what r t)"
    and "same_but_debug w (snd (acquireLogin1Inhibitor_body w what r s))
           (snd (acquireLogin1Inhibitor_body w what r t))"
proof -
  define s1 where "s1 = snd (connection_step w DBUS_BUS_SYSTEM ''system'' s)"
  define t1 where "t1 = snd (connection_step w DBUS_BUS_SYSTEM ''system'' t)"
  note c = same_connection_step [OF assms, of DBUS_BUS_SYSTEM "''system''"]
  have r1: "same_but_debug w s1 t1" using c(2) by (simp add: s1_def t1_def)
  have k: "clock s1 = clock t1" using same_fields(9) [OF r1] .
  have r2: "same_but_debug w (outside_call e s1) (outside_call e t1)" for e
    using r1 by (rule same_outside_call)
  have r3: "same_but_debug w (outside_call e' (outside_call e s1)) (outside_call e' (outside_call e t1))"
    for e e'
    using r2 by (rule same_outside_call)
  note rep = same_login1_reply_step [OF r3]
  show "fst (acquireLogin1Inhibitor_body w what r s) = fst (acquireLogin1Inhibitor_body w what r t)"
    using rep(1)
    by (simp add: login1_body_steps c(1) s1_def [symmetric] t1_def [symmetric] k
        split: option.splits)
  show "same_but_debug w (snd (acquireLogin1Inhibitor_body w what r s))
           (snd (acquireLogin1Inhibitor_body w what r t))"
    using rep(2) r1 r2
    by (simp add: login1_body_steps c(1) s1_def [symmetric] t1_def [symmetric] k
        same_setStatusMessage split: option.splits)
qed

lemma same_screen:
  assumes "same_but_debug w s t"
  shows "fst (acquireScreenSaverInhibitor w s) = fst (acquireScreenSaverInhibitor w t)"
    and "same_but_debug w (snd (acquireScreenSaverInhibitor w s)) (snd (acquireScreenSaverInhibitor w t))"
  using same_screen_body [OF assms] same_fields(8) [OF same_screen_body(2) [OF assms]]
  by (simp_all add: acquireScreenSaverInhibitor_def split_beta same_history_update)

lemma same_login1:
  assumes "same_but_debug w s t"
  shows "fst (acquireLogin1Inhibitor w what r s) = fst (acquireLogin1Inhibitor w what r t)"
    and "same_but_debug w (snd (acquireLogin1Inhibitor w what r s))
           (snd (acquireLogin1Inhibitor w what r t))"
  using same_login1_body [OF assms, of what r]
    same_fields(8) [OF same_login1_body(2) [OF assms, of what r]]
  by (simp_all add: acquireLogin1Inhibitor_def split_beta same_history_update)

lemma same_acquireInhibitors:
  assumes "same_but_debug w s t"
  shows "fst (acquireInhibitors w s) = fst (acquireInhibitors w t)"
    and "same_but_debug w (snd (acquireInhibitors w s)) (snd (acquireInhibitors w t))"
proof -
  define s1 where "s1 = snd (acquireScreenSaverInhibitor w s)"
  define t1 where "t1 = snd (acquireScreenSaverInhibitor w t)"
  define s2 where "s2 = snd (acquireLogin1Inhibitor w ''idle'' Ref_idleFd s1)"
  define t2 where "t2 = snd (acquireLogin1Inhibitor w ''idle'' Ref_idleFd t1)"
  define s3 where "s3 = snd (acquireLogin1Inhibitor w ''sleep'' Ref_sleepFd s2)"
  define t3 where "t3 = snd (acquireLogin1Inhibitor w ''sleep'' Ref_sleepFd t2)"
  note a = same_screen [OF assms]
  have r1: "same_but_debug w s1 t1" using a(2) by (simp add: s1_def t1_def)
  note b = same_login1 [OF r1, of "''idle''" Ref_idleFd]
  have r2: "same_but_debug w s2 t2" using b(2) by (simp add: s2_def t2_def)
  note c = same_login1 [OF r2, of "''sleep''" Ref_sleepFd]
  have r3: "same_but_debug w s3 t3" using c(2) by (simp add: s3_def t3_def)
  have ok: "fst (acquireInhibitors w s) = fst (acquireInhibitors w t)"
    using a(1) b(1) c(1)
    by (simp add: acquireInhibitors_returns_active acquireInhibitors_active s1_def t1_def s2_def t2_def)
  show "fst (acquireInhibitors w s) = fst (acquireInhibitors w t)" by (rule ok)
  have es: "snd (acquireInhibitors w s) =
      (if fst (acquireInhibitors w s)
       then setStatusMessage w ''Inhibitors active (screen saver, idle, sleep).''
              (s3\<lparr>inhibitorsActive := fst (acquireInhibitors w s)\<rparr>)
       else updateStatusFile w (s3\<lparr>inhibitorsActive := fst (acquireInhibitors w s)\<rparr>))"
    by (auto simp: acquireInhibitors_def split_beta Let_def s1_def s2_def s3_def)
  have et: "snd (acquireInhibitors w t) =
      (if fst (acquireInhibitors w t)
       then setStatusMessage w ''Inhibitors active (screen saver, idle, sleep).''
              (t3\<lparr>inhibitorsActive := fst (acquireInhibitors w t)\<rparr>)
       else updateStatusFile w (t3\<lparr>inhibitorsActive := fst (acquireInhibitors w t)\<rparr>))"
    by (auto simp: acquireInhibitors_def split_beta Let_def t1_def t2_def t3_def)
  show "same_but_debug w (snd (acquireInhibitors w s)) (snd (acquireInhibitors w t))"
    unfolding es et ok
    using r3 by (simp add: same_rules)
qed

lemma same_releaseScreenSaverInhibitor:
  assumes "same_but_debug w s t"
  shows "same_but_debug w (releaseScreenSaverInhibitor w s) (releaseScreenSaverInhibitor w t)"
proof -
  note f = same_fields [OF assms]
  show ?thesis
  proof (cases "sessionConnection (inhibitorHandles t)")
    case None
    then show ?thesis using assms f by (simp add: releaseScreenSaverInhibitor_def)
  next
    case (Some c)
    show ?thesis
    proof (cases "screenSaverCookie (inhibitorHandles t) = 0")
      case True
      then show ?thesis using assms f Some by (simp add: releaseScreenSaverInhibitor_def)
    next
      case False
      show ?thesis
      proof (cases "dbus_message_new_method_call w (clock t) ScreenSaver_UnInhibit")
        case no: False
        then show ?thesis
          using assms f Some False
          by (simp add: releaseScreenSaverInhibitor_def Let_def same_rules)
      next
        case yes: True
        have r2: "same_but_debug w
            (outside_call e' (outside_call e s)) (outside_call e' (outside_call e t))" for e e'
          using assms by (intro same_outside_call)
        show ?thesis
          using f Some False yes r2
          by (cases "dbus_send_with_reply w (Suc (clock t)) ScreenSaver_UnInhibit
                [UINT32 (screenSaverCookie (inhibitorHandles t))]")
             (simp_all add: releaseScreenSaverInhibitor_def Let_def same_rules)
      qed
    qed
  qed
qed

lemma same_releaseLogin1Fd:
  assumes "same_but_debug w s t"
  shows "same_but_debug w (releaseLogin1Fd r what s) (releaseLogin1Fd r what t)"
  using assms same_fields [OF assms]
  by (simp add: releaseLogin1Fd_def Let_def same_rules)

lemma same_drop_connection:
  assumes "same_but_debug w s t"
  shows "same_but_debug w (drop_connection b s) (drop_connection b t)"
  using assms same_fields [OF assms]
  by (cases b) (simp_all add: drop_connection_def Let_def same_rules split: option.splits)

lemma same_cleanupInhibitors:
  assumes "same_but_debug w s t"
  shows "same_but_debug w (cleanupInhibitors w s) (cleanupInhibitors w t)"
proof -
  define s6 where "s6 =
    drop_connection DBUS_BUS_SYSTEM (drop_connection DBUS_BUS_SESSION
      ((releaseLogin1Fd Ref_sleepFd ''sleep'' (releaseLogin1Fd Ref_idleFd ''idle''
          (releaseScreenSaverInhibitor w s)))\<lparr>inhibitorsActive := False\<rparr>))"
  define t6 where "t6 =
    drop_connection DBUS_BUS_SYSTEM (drop_connection DBUS_BUS_SESSION
      ((releaseLogin1Fd Ref_sleepFd ''sleep'' (releaseLogin1Fd Ref_idleFd ''idle''
          (releaseScreenSaverInhibitor w t)))\<lparr>inhibitorsActive := False\<rparr>))"
  have r6: "same_but_debug w s6 t6"
    unfolding s6_def t6_def
    by (intro same_drop_connection same_flag_update same_releaseLogin1Fd
        same_releaseScreenSaverInhibitor assms)
  have r7: "same_but_debug w (updateStatusFile w s6) (updateStatusFile w t6)"
    using r6 by (rule same_updateStatusFile)
  show ?thesis
    using r7 same_fields(8) [OF assms]
    by (simp add: cleanupInhibitors_def Let_def s6_def [symmetric] t6_def [symmetric]
        same_history_update)
qed

lemma same_deliver:
  "same_but_debug w s t \<Longrightarrow> same_but_debug w (deliver sigs s) (deliver sigs t)"
proof (induction sigs arbitrary: s t)
  case Nil
  then show ?case by simp
next
  case (Cons sg sigs)
  have "same_but_debug w (handleSignal sg s) (handleSignal sg t)"
    using Cons.prems by (cases sg) (simp_all add: same_flag_update)
  then show ?case by (simp add: Cons.IH)
qed

lemma same_onAcquireRequested:
  assumes "same_but_debug w s t"
  shows "same_but_debug w (onAcquireRequested w s) (onAcquireRequested w t)"
proof -
  note f = same_fields [OF assms]
  have r: "same_but_debug w (s\<lparr>acquireRequested := False\<rparr>) (t\<lparr>acquireRequested := False\<rparr>)"
    using assms by (rule same_flag_update)
  note a = same_acquireInhibitors [OF r]
  show ?thesis
    using assms r a
    by (simp add: onAcquireRequested_def Let_def split_beta f same_rules)
qed

lemma same_onReleaseRequested:
  assumes "same_but_debug w s t"
  shows "same_but_debug w (onReleaseRequested w s) (onReleaseRequested w t)"
proof -
  note f = same_fields [OF assms]
  have r: "same_but_debug w (s\<lparr>releaseRequested := False\<rparr>) (t\<lparr>releaseRequested := False\<rparr>)"
    using assms by (rule same_flag_update)
  note c = same_cleanupInhibitors [OF r]
  show ?thesis
    using assms r c
    by (simp add: onReleaseRequested_def Let_def f same_rules)
qed

lemma same_onTermination:
  assumes "same_but_debug w s t"
  shows "same_but_debug w (onTermination w s) (onTermination w t)"
proof -
  note f = same_fields [OF assms]
  have r: "same_but_debug w (logDebug m s) (logDebug m t)" for m
    using assms by (rule same_logDebug)
  note c = same_cleanupInhibitors [OF r]
  show ?thesis
    using c by (simp add: onTermination_def Let_def f same_rules)
qed

lemma same_beforeLoop:
  assumes "same_but_debug w s t"
  shows "same_but_debug w (beforeLoop w s) (beforeLoop w t)"
  using same_acquireInhibitors [OF assms]
  by (simp add: beforeLoop_def split_beta same_rules)

lemma same_whileLoop:
  "same_but_debug w s t \<Longrightarrow>
   (case (whileLoop w passes s, whileLoop w passes t) of
      (Still_looping s', Still_looping t') \<Rightarrow> same_but_debug w s' t'
    | (Left_loop s', Left_loop t') \<Rightarrow> same_but_debug w s' t'
    | _ \<Rightarrow> False)"
proof (induction passes arbitrary: s t)
  case Nil
  then show ?case by simp
next
  case (Cons p passes)
  obtain a b c where p: "p = (a, b, c)" by (cases p) auto
  have d: "same_but_debug w (deliver a s) (deliver a t)"
    using Cons.prems by (rule same_deliver)
  note f = same_fields [OF d]
  show ?case
  proof (cases "terminationRequested (deliver a t)")
    case True
    then show ?thesis using d f by (simp add: p)
  next
    case False
    have "same_but_debug w
        (onReleaseRequested w (deliver c (onAcquireRequested w (deliver b (deliver a s)))))
        (onReleaseRequested w (deliver c (onAcquireRequested w (deliver b (deliver a t)))))"
      by (intro same_onReleaseRequested same_deliver same_onAcquireRequested d)
    from Cons.IH [OF this] show ?thesis using False f by (simp add: p)
  qed
qed

lemma same_setDebugMode: "same_but_debug w (setDebugMode d1 s) (setDebugMode d2 s)"
  by (simp add: setDebugMode_def Let_def same_but_debug_def files_agree_def)

lemma same_run:
  assumes "same_but_debug w s t"
  shows "stopped (runInhibitorLoop w passes s) = stopped (runInhibitorLoop w passes t)"
    and "same_but_debug w (state_of (runInhibitorLoop w passes s))
           (state_of (runInhibitorLoop w passes t))"
proof -
  note l = same_whileLoop [OF same_beforeLoop [OF assms], of passes]
  show "stopped (runInhibitorLoop w passes s) = stopped (runInhibitorLoop w passes t)"
    using l by (simp add: runInhibitorLoop_def split: loop_exit.splits)
  show "same_but_debug w (state_of (runInhibitorLoop w passes s))
           (state_of (runInhibitorLoop w passes t))"
    using l by (simp add: runInhibitorLoop_def same_onTermination split: loop_exit.splits)
qed

lemma debug_kept:
  "debugLoggingEnabled (state_of (runInhibitorLoop w passes s)) = debugLoggingEnabled s"
proof -
  have a: "debugLoggingEnabled (onAcquireRequested w t) = debugLoggingEnabled t" for t
    by (simp add: onAcquireRequested_def Let_def split_beta)
  have r: "debugLoggingEnabled (onReleaseRequested w t) = debugLoggingEnabled t" for t
    by (simp add: onReleaseRequested_def Let_def)
  have l: "debugLoggingEnabled (case whileLoop w passes t of Still_looping u \<Rightarrow> u | Left_loop u \<Rightarrow> u)
      = debugLoggingEnabled t" for t
  proof (induction passes arbitrary: t)
    case Nil
    then show ?case by simp
  next
    case (Cons p passes)
    obtain x y z where p: "p = (x, y, z)" by (cases p) auto
    show ?case
      by (cases "terminationRequested (deliver x t)") (simp_all add: p Cons.IH a r)
  qed
  have b: "debugLoggingEnabled (beforeLoop w s) = debugLoggingEnabled s"
    by (simp add: beforeLoop_def split_beta)
  have e: "debugLoggingEnabled (onTermination w t) = debugLoggingEnabled t" for t
    by (simp add: onTermination_def Let_def)
  show ?thesis
    using l [of "beforeLoop w s"] b
    by (simp add: runInhibitorLoop_def e split: loop_exit.splits)
qed

text \<open>
  Claim C9. Two runs in the same world, with the same signals, from states that differ
  only in the debug flag given to \<open>setDebugMode\<close>: both are still in the loop or both
  have stopped, with the same handles, flag, status message, pending requests, the same
  outside calls in the same order (the same leases acquired and released) and the same
  history. The status files are the same, or are what the stream took (the same number of
  characters in both runs) of the four lines of the same flag and message under the two
  debug flags. Only what was printed differs besides.
\<close>

theorem C9_debug_flag_only_logs:
  "(let r1 = runInhibitorLoop w passes (setDebugMode d1 s);
        r2 = runInhibitorLoop w passes (setDebugMode d2 s)
    in stopped r1 = stopped r2
     \<and> inhibitorHandles (state_of r1) = inhibitorHandles (state_of r2)
     \<and> inhibitorsActive (state_of r1) = inhibitorsActive (state_of r2)
     \<and> lastQbusError (state_of r1) = lastQbusError (state_of r2)
     \<and> effects (state_of r1) = effects (state_of r2)
     \<and> history (state_of r1) = history (state_of r2)
     \<and> terminationRequested (state_of r1) = terminationRequested (state_of r2)
     \<and> acquireRequested (state_of r1) = acquireRequested (state_of r2)
     \<and> releaseRequested (state_of r1) = releaseRequested (state_of r2)
     \<and> clock (state_of r1) = clock (state_of r2)
     \<and> files_agree w d1 (statusFile (state_of r1)) d2 (statusFile (state_of r2)))"
proof -
  note r = same_run [OF same_setDebugMode [of w d1 s d2], of passes]
  have d: "debugLoggingEnabled (state_of (runInhibitorLoop w passes (setDebugMode d s))) = d" for d
    by (simp add: debug_kept setDebugMode_def Let_def)
  show ?thesis
    using r same_fields [OF r(2)] d
    by (simp add: Let_def same_but_debug_def)
qed

text \<open>A release request served with and without debug logging: the same outside calls.\<close>

theorem C9_debug_flag_only_logs_witness:
  "effects (state_of (runInhibitorLoop friendly [([], [], [SIGUSR2])]
       (setDebugMode True (initial_state None))))
     = effects (state_of (runInhibitorLoop friendly [([], [], [SIGUSR2])]
         (setDebugMode False (initial_state None))))
   \<and> inhibitorsActive (state_of (runInhibitorLoop friendly [([], [], [SIGUSR2])]
       (setDebugMode True (initial_state None))))
     = inhibitorsActive (state_of (runInhibitorLoop friendly [([], [], [SIGUSR2])]
         (setDebugMode False (initial_state None))))"
  using C9_debug_flag_only_logs [of friendly "[([], [], [SIGUSR2])]" True "initial_state None" False]
  by (simp add: Let_def)

end
